theory Spec2Isabelle
  imports Main
begin

section \<open>Document entity: sizes and chunking (src/domain/entities/Document.js)\<close>

text \<open>
  JavaScript strings are modelled as \<^typ>\<open>string\<close>, one list element per code unit, and
  the numbers that index them as \<^typ>\<open>int\<close> (the parameters are integers in the
  configuration; a start position can become negative when the overlap exceeds the window).

  \<open>String.prototype.lastIndexOf(c, position)\<close> for a one-character search string: the
  position is clamped to \<open>[0, length - 1]\<close>, and the result is the greatest index not above it
  that holds \<open>c\<close>, or \<open>-1\<close>.
\<close>

definition lastIndexOf :: "string \<Rightarrow> char \<Rightarrow> int \<Rightarrow> int" where
  "lastIndexOf s c position =
     (let n = nat (min (max position 0) (int (length s) - 1) + 1);
          hits = filter (\<lambda>k. s ! k = c) [0..<n]
      in if hits = [] then - 1 else int (last hits))"

text \<open>
  \<open>String.prototype.substring(a, b)\<close>: both arguments are clamped to \<open>[0, length]\<close> and
  swapped when the first is the larger.
\<close>

definition substring :: "string \<Rightarrow> int \<Rightarrow> int \<Rightarrow> string" where
  "substring s a b =
     (let n = int (length s);
          a' = min (max a 0) n;
          b' = min (max b 0) n;
          lo = min a' b';
          hi = max a' b'
      in take (nat (hi - lo)) (drop (nat lo) s))"

definition getSize :: "string \<Rightarrow> int" where
  "getSize content = int (length content)"

definition needsChunking :: "string \<Rightarrow> int \<Rightarrow> bool" where
  "needsChunking content maxChunkSize \<longleftrightarrow> getSize content > maxChunkSize"

text \<open>
  The end of the window that starts at \<open>start\<close>: the body of the loop of \<open>chunkContent\<close>
  up to the \<open>push\<close>. The test \<open>breakPoint > start + maxChunkSize * 0.8\<close> is written in
  exact integer arithmetic, multiplied by five.
\<close>

definition windowEnd :: "string \<Rightarrow> int \<Rightarrow> int \<Rightarrow> int" where
  "windowEnd content maxChunkSize start =
     (let end = start + maxChunkSize
      in if end < int (length content) then
           let lastPeriod = lastIndexOf content (CHR ''.'') end;
               lastNewline = lastIndexOf content (CHR 0x0A) end;
               breakPoint = max lastPeriod lastNewline
           in if 5 * breakPoint > 5 * start + 4 * maxChunkSize then breakPoint + 1 else end
         else end)"

text \<open>
  The \<open>while (start < this.content.length)\<close> loop. Nothing in the source bounds the number
  of iterations, so the loop is a partial function: \<open>None\<close> is a run that never leaves it.
\<close>

partial_function (option) chunkLoop ::
  "string \<Rightarrow> int \<Rightarrow> int \<Rightarrow> int \<Rightarrow> string list \<Rightarrow> string list option" where
  "chunkLoop content maxChunkSize overlap start chunks =
     (if start < int (length content) then
        chunkLoop content maxChunkSize overlap
          (windowEnd content maxChunkSize start - overlap)
          (chunks @ [substring content start (windowEnd content maxChunkSize start)])
      else Some chunks)"

declare chunkLoop.simps [code]

definition chunkContent :: "string \<Rightarrow> int \<Rightarrow> int \<Rightarrow> string list option" where
  "chunkContent content maxChunkSize overlap =
     (if \<not> needsChunking content maxChunkSize then Some [content]
      else chunkLoop content maxChunkSize overlap 0 [])"

section \<open>Collection files of the record store: reading with recovery\<close>

text \<open>
  \<open>FileSystemJobRepository.getAllJobs\<close> and \<open>FileSystemDocumentRepository.getAllDocuments\<close>
  are the same code on two files, so one function \<open>getAll\<close> models both.

  A parsed JSON text is a value of \<open>json\<close> (numbers restricted to integers). The file system
  is a map from paths to file contents; its calls are taken to succeed, except
  \<open>fs.access\<close>, which fails with \<open>ENOENT\<close> on a path that is not in the map.
\<close>

datatype json =
    JNull
  | JBool bool
  | JNum int
  | JStr string
  | JArr "json list"
  | JObj "(string \<times> json) list"

type_synonym fs = "string \<rightharpoonup> string"

text \<open>\<open>String.prototype.split("\n")\<close>: the pieces between the separators, empty ones kept.\<close>

fun split :: "char \<Rightarrow> string \<Rightarrow> string list" where
  "split sep [] = [[]]"
| "split sep (c # cs) =
     (if c = sep then [] # split sep cs
      else (c # hd (split sep cs)) # tl (split sep cs))"

text \<open>\<open>Array.prototype.join(sep)\<close> on strings.\<close>

fun join :: "string \<Rightarrow> string list \<Rightarrow> string" where
  "join sep [] = []"
| "join sep [x] = x"
| "join sep (x # y # ys) = x @ sep @ join sep (y # ys)"

text \<open>
  \<open>!data.trim()\<close> holds when every character of \<open>data\<close> is white space (the white space
  and line terminators of the language that fit in one byte).
\<close>

definition isWhiteSpace :: "char \<Rightarrow> bool" where
  "isWhiteSpace c \<longleftrightarrow> c \<in> set [CHR 0x09, CHR 0x0A, CHR 0x0B, CHR 0x0C, CHR 0x0D, CHR 0x20]"

definition trimIsEmpty :: "string \<Rightarrow> bool" where
  "trimIsEmpty data \<longleftrightarrow> list_all isWhiteSpace data"

text \<open>\<open>Number.prototype.toString()\<close> on a natural number: its decimal digits.\<close>

definition digitChar :: "nat \<Rightarrow> char" where
  "digitChar d = char_of (48 + d)"

fun toString :: "nat \<Rightarrow> string" where
  "toString n = (if n < 10 then [digitChar n] else toString (n div 10) @ [digitChar (n mod 10)])"

declare toString.simps [simp del]

text \<open>
  The lines of the file that \<open>JSON.parse\<close> accepts on their own (the \<open>for (const line of
  lines)\<close> loop), and the text \<open>`[${validLines.join(",")}]`\<close> built from them.
\<close>

definition validLines :: "(string \<Rightarrow> json option) \<Rightarrow> string \<Rightarrow> string list" where
  "validLines parse fileContent = filter (\<lambda>line. parse line \<noteq> None) (split (CHR 0x0A) fileContent)"

definition recoveredData :: "string list \<Rightarrow> string" where
  "recoveredData lines = ''['' @ join '','' lines @ '']''"

definition backupFile :: "string \<Rightarrow> nat \<Rightarrow> string" where
  "backupFile file now = file @ ''.backup.'' @ toString now"

text \<open>
  \<open>getAll file parse now fs\<close>: the value returned and the file system left behind.
  \<open>parse\<close> is \<open>JSON.parse\<close> (\<open>None\<close> where it throws) and \<open>now\<close> is \<open>Date.now()\<close>. An
  exception of \<open>JSON.parse(recoveredData)\<close> reaches the outer \<open>catch\<close>, which returns \<open>[]\<close>.
\<close>

definition getAll :: "string \<Rightarrow> (string \<Rightarrow> json option) \<Rightarrow> nat \<Rightarrow> fs \<Rightarrow> json \<times> fs" where
  "getAll file parse now fs =
     (case fs file of
        None \<Rightarrow> (JArr [], fs(file \<mapsto> ''[]''))
      | Some data \<Rightarrow>
          if trimIsEmpty data then (JArr [], fs)
          else (case parse data of
                  Some v \<Rightarrow> (v, fs)
                | None \<Rightarrow>
                    if validLines parse data \<noteq> [] then
                      (case parse (recoveredData (validLines parse data)) of
                         Some v \<Rightarrow> (v, fs)
                       | None \<Rightarrow> (JArr [], fs))
                    else (JArr [], fs(backupFile file now \<mapsto> data, file \<mapsto> ''[]''))))"


definition documentsFile :: string where
  "documentsFile = ''data/documents.json''"


definition getAllDocuments :: "(string \<Rightarrow> json option) \<Rightarrow> nat \<Rightarrow> fs \<Rightarrow> json \<times> fs" where
  "getAllDocuments = getAll documentsFile"

subsection \<open>A reader for a fragment of JSON\<close>

text \<open>
  \<open>JSON.parse\<close> belongs to the platform and stays a parameter of \<open>getAll\<close>. To run
  \<open>getAll\<close> on a concrete file, \<open>parseJSON\<close> reads the fragment of JSON made of objects
  (kept as the list of their members, in the order written), arrays, strings without
  escapes, integers and the three literals, with white space between tokens; a text outside
  the fragment is refused. The first argument of the mutually recursive readers bounds the
  nesting and the number of elements; \<open>parseJSON\<close> starts them with the length of the text.
\<close>

definition isJsonSpace :: "char \<Rightarrow> bool" where
  "isJsonSpace c \<longleftrightarrow> c \<in> set [CHR 0x09, CHR 0x0A, CHR 0x0D, CHR 0x20]"

definition isDigit :: "char \<Rightarrow> bool" where
  "isDigit c \<longleftrightarrow> (48::nat) \<le> of_char c \<and> of_char c \<le> (57::nat)"

definition quote :: char where
  "quote = CHR 0x22"


fun skipSpace :: "string \<Rightarrow> string" where
  "skipSpace [] = []"
| "skipSpace (c # cs) = (if isJsonSpace c then skipSpace cs else c # cs)"

fun readString :: "string \<Rightarrow> (string \<times> string) option" where
  "readString [] = None"
| "readString (c # cs) =
     (if c = quote then Some ([], cs)
      else if c = CHR 0x5C \<or> of_char c < (32::nat) then None
      else map_option (\<lambda>(s, rest). (c # s, rest)) (readString cs))"

definition digitsValue :: "string \<Rightarrow> int" where
  "digitsValue ds = foldl (\<lambda>acc c. 10 * acc + (of_char c - 48)) 0 ds"

definition readNumber :: "string \<Rightarrow> (json \<times> string) option" where
  "readNumber s =
     (let neg = (s \<noteq> [] \<and> hd s = CHR ''-'');
          body = (if neg then tl s else s);
          ds = takeWhile isDigit body;
          rest = dropWhile isDigit body
      in if ds = [] \<or> (hd ds = CHR ''0'' \<and> length ds > 1) then None
         else if rest \<noteq> [] \<and> hd rest \<in> set [CHR ''.'', CHR ''e'', CHR ''E''] then None
         else Some (JNum (if neg then - digitsValue ds else digitsValue ds), rest))"

definition readLiteral :: "string \<Rightarrow> (json \<times> string) option" where
  "readLiteral s =
     (if take 4 s = ''null'' then Some (JNull, drop 4 s)
      else if take 4 s = ''true'' then Some (JBool True, drop 4 s)
      else if take 5 s = ''false'' then Some (JBool False, drop 5 s)
      else readNumber s)"

fun readValue :: "nat \<Rightarrow> string \<Rightarrow> (json \<times> string) option"
  and readElements :: "nat \<Rightarrow> string \<Rightarrow> (json list \<times> string) option"
  and readMembers :: "nat \<Rightarrow> string \<Rightarrow> ((string \<times> json) list \<times> string) option" where
  "readValue 0 s = None"
| "readValue (Suc n) s =
     (case skipSpace s of
        [] \<Rightarrow> None
      | c # cs \<Rightarrow>
          if c = quote then map_option (\<lambda>(x, rest). (JStr x, rest)) (readString cs)
          else if c = CHR ''['' then
            (case skipSpace cs of
               [] \<Rightarrow> None
             | d # ds \<Rightarrow>
                 if d = CHR '']'' then Some (JArr [], ds)
                 else map_option (\<lambda>(vs, rest). (JArr vs, rest)) (readElements n cs))
          else if c = CHR ''{'' then
            (case skipSpace cs of
               [] \<Rightarrow> None
             | d # ds \<Rightarrow>
                 if d = CHR ''}'' then Some (JObj [], ds)
                 else map_option (\<lambda>(ms, rest). (JObj ms, rest)) (readMembers n cs))
          else readLiteral (c # cs))"
| "readElements 0 s = None"
| "readElements (Suc n) s =
     (case readValue n s of
        None \<Rightarrow> None
      | Some (v, rest) \<Rightarrow>
          (case skipSpace rest of
             [] \<Rightarrow> None
           | c # cs \<Rightarrow>
               if c = CHR '','' then map_option (\<lambda>(vs, r). (v # vs, r)) (readElements n cs)
               else if c = CHR '']'' then Some ([v], cs)
               else None))"
| "readMembers 0 s = None"
| "readMembers (Suc n) s =
     (case skipSpace s of
        [] \<Rightarrow> None
      | q # ks \<Rightarrow>
          if q \<noteq> quote then None
          else (case readString ks of
                  None \<Rightarrow> None
                | Some (k, afterKey) \<Rightarrow>
                    (case skipSpace afterKey of
                       [] \<Rightarrow> None
                     | colon # vs \<Rightarrow>
                         if colon \<noteq> CHR '':'' then None
                         else (case readValue n vs of
                                 None \<Rightarrow> None
                               | Some (v, rest) \<Rightarrow>
                                   (case skipSpace rest of
                                      [] \<Rightarrow> None
                                    | c # cs \<Rightarrow>
                                        if c = CHR '','' then
                                          map_option (\<lambda>(ms, r). ((k, v) # ms, r)) (readMembers n cs)
                                        else if c = CHR ''}'' then Some ([(k, v)], cs)
                                        else None)))))"





section \<open>Sharded output writer (LocalOutputService)\<close>

text \<open>
  \<open>Array.prototype.slice(a, b)\<close>: a negative index counts from the end, and both are
  clamped to the array.
\<close>

definition slice :: "'a list \<Rightarrow> int \<Rightarrow> int \<Rightarrow> 'a list" where
  "slice xs a b =
     (let n = int (length xs);
          k = (if a < 0 then max (n + a) 0 else min a n);
          f = (if b < 0 then max (n + b) 0 else min b n)
      in take (nat (f - k)) (drop (nat k) xs))"

text \<open>
  \<open>createShards\<close> (and \<open>createBatches\<close> of the use case, which is the same loop):
  \<open>for (let i = 0; i < xs.length; i += size) out.push(xs.slice(i, i + size))\<close>.
  With \<open>size \<le> 0\<close> and a non-empty array the loop never ends, so it is a partial function.
\<close>

partial_function (option) sliceLoop ::
  "'a list \<Rightarrow> int \<Rightarrow> int \<Rightarrow> 'a list list \<Rightarrow> 'a list list option" where
  "sliceLoop xs step i out =
     (if i < int (length xs) then sliceLoop xs step (i + step) (out @ [slice xs i (i + step)])
      else Some out)"

declare sliceLoop.simps [code]


text \<open>\<open>String.prototype.padStart(n, c)\<close> with a one-character filler.\<close>

definition padStart :: "nat \<Rightarrow> char \<Rightarrow> string \<Rightarrow> string" where
  "padStart n c s = replicate (n - length s) c @ s"

definition generateFileName :: "string \<Rightarrow> nat \<Rightarrow> string \<Rightarrow> bool \<Rightarrow> string" where
  "generateFileName jid shardIndex fmt compress =
     (let baseName = ''results_'' @ jid @ ''_shard_'' @ padStart 4 (CHR ''0'') (toString shardIndex);
          extension = (if fmt = ''jsonl'' then ''jsonl'' else fmt)
      in if compress then baseName @ ''.'' @ extension @ ''.gz''
         else baseName @ ''.'' @ extension)"


record outputFile =
  fileName :: string
  filePath :: string
  recordCount :: int
  fileSize :: int

text \<open>The metadata object; \<open>processingTime\<close> and \<open>createdAt\<close> are clock readings and left out.\<close>

record outputMetadata =
  metaJobId :: string
  outputFiles :: "outputFile list"
  totalRecords :: int
  totalFiles :: int
  metaFormat :: string
  metaCompression :: bool




















section \<open>Entities: Job and Document\<close>

datatype status = Pending | Processing | Completed | Failed

text \<open>
  The errors that the use case raises or passes on. Each stands for a JavaScript \<open>Error\<close>;
  \<open>message\<close> is its \<open>message\<close> property. \<open>JobNotFound\<close> and \<open>NoDocumentsFound\<close> are the
  two errors thrown by \<open>execute\<close> itself, \<open>UnsupportedExtractionType\<close> the one thrown by
  \<open>extractFromDocument\<close>; the others carry the message of an error raised by a collaborator.
\<close>

datatype error =
    JobNotFound string
  | NoDocumentsFound string
  | UnsupportedExtractionType string
  | StoreError string
  | ExtractorError string
  | CombineError string
  | OutputError string
  | TypeError string

fun message :: "error \<Rightarrow> string" where
  "message (JobNotFound jid) = ''Job '' @ jid @ '' not found''"
| "message (NoDocumentsFound jid) = ''No documents found for job '' @ jid"
| "message (UnsupportedExtractionType t) = ''Unsupported extraction type: '' @ t"
| "message (StoreError m) = m"
| "message (ExtractorError m) = m"
| "message (CombineError m) = m"
| "message (OutputError m) = m"
| "message (TypeError m) = m"

text \<open>
  The object \<open>execute\<close> returns and stores as \<open>metadata.result\<close> of the job
  (\<open>processingTime\<close> is a clock reading and left out).
\<close>

record summary =
  sumJobId :: string
  totalDocuments :: int
  processedDocuments :: int
  failedDocuments :: int
  sumOutputMetadata :: outputMetadata

text \<open>\<open>extractionConfig\<close>: the \<open>type\<close> tag, which may be missing, and the schema, passed through.\<close>

record extractionConfig =
  configType :: "string option"
  configSchema :: "json option"

text \<open>
  A job. \<open>jobResult\<close> and \<open>jobError\<close> are \<open>metadata.result\<close> and \<open>metadata.error\<close>; the
  time stamps are left out.
\<close>

record job =
  jobIdent :: string
  jobName :: string
  jobExtractionConfig :: extractionConfig
  documentIds :: "string list"
  jobStatus :: status
  jobResult :: "summary option"
  jobError :: "string option"

definition job_markProcessing :: "job \<Rightarrow> job" where
  "job_markProcessing j = j\<lparr>jobStatus := Processing\<rparr>"

definition job_markCompleted :: "job \<Rightarrow> summary \<Rightarrow> job" where
  "job_markCompleted j r = j\<lparr>jobStatus := Completed, jobResult := Some r\<rparr>"

definition job_markFailed :: "job \<Rightarrow> string \<Rightarrow> job" where
  "job_markFailed j err = j\<lparr>jobStatus := Failed, jobError := Some err\<rparr>"

text \<open>A document, with \<open>metadata.result\<close> and \<open>metadata.error\<close> as \<open>docResult\<close> and \<open>docError\<close>.\<close>

record document =
  docId :: string
  docName :: string
  docContent :: string
  docStatus :: status
  docResult :: "json option"
  docError :: "string option"

definition document_markProcessing :: "document \<Rightarrow> document" where
  "document_markProcessing d = d\<lparr>docStatus := Processing\<rparr>"

definition document_markCompleted :: "document \<Rightarrow> json \<Rightarrow> document" where
  "document_markCompleted d r = d\<lparr>docStatus := Completed, docResult := Some r\<rparr>"

definition document_markFailed :: "document \<Rightarrow> string \<Rightarrow> document" where
  "document_markFailed d err = d\<lparr>docStatus := Failed, docError := Some err\<rparr>"

text \<open>The result of a document (\<open>processingTime\<close> left out).\<close>

record processingResult =
  prDocumentId :: string
  prDocumentName :: string
  prResult :: json
  prAttempts :: int

section \<open>The record store as the use case sees it\<close>

text \<open>
  What the run of a job leaves behind, in the order it happens: the writes the repositories
  made, the entries into \<open>extractFromDocument\<close>, the chunkings, the calls to the extractor,
  the \<open>console.error\<close> lines of failed attempts (numbered from 1, as printed) and the call
  of the output writer with the result list.
\<close>

datatype event =
    JobSaved string status
  | DocumentSaved string status
  | ExtractionStarted string nat
  | ContentChunked string nat
  | ExtractorCalled string nat string
  | AttemptFailed string nat
  | ResultsWritten string "processingResult list"

text \<open>
  The two collections hold well-formed arrays here (reading a damaged file is the subject of
  \<open>getAll\<close> above). \<open>writeFaults\<close> scripts the file system under \<open>save\<close>: each call of
  \<open>save\<close> takes the head, \<open>Some m\<close> makes the call throw an error with message \<open>m\<close>, and
  an exhausted script means that every further write succeeds. Reads do not throw:
  \<open>getAllJobs\<close> and \<open>getAllDocuments\<close> catch every error.
\<close>

record world =
  jobsColl :: "job list"
  documentsColl :: "document list"
  writeFaults :: "string option list"
  trace :: "event list"

text \<open>
  \<open>findIndex\<close> followed by replacement at that index, or \<open>push\<close> when there is none.
\<close>

fun upsert :: "('a \<Rightarrow> string) \<Rightarrow> 'a \<Rightarrow> 'a list \<Rightarrow> 'a list" where
  "upsert key x [] = [x]"
| "upsert key x (y # ys) = (if key y = key x then x # ys else y # upsert key x ys)"

definition nextFault :: "world \<Rightarrow> string option" where
  "nextFault w = (case writeFaults w of [] \<Rightarrow> None | f # _ \<Rightarrow> f)"

definition saveJob :: "job \<Rightarrow> world \<Rightarrow> (error + unit) \<times> world" where
  "saveJob j w =
     (case nextFault w of
        Some m \<Rightarrow> (Inl (StoreError m), w\<lparr>writeFaults := tl (writeFaults w)\<rparr>)
      | None \<Rightarrow>
          (Inr (), w\<lparr>jobsColl := upsert jobIdent j (jobsColl w),
                     writeFaults := tl (writeFaults w),
                     trace := trace w @ [JobSaved (jobIdent j) (jobStatus j)]\<rparr>))"

definition saveDocument :: "document \<Rightarrow> world \<Rightarrow> (error + unit) \<times> world" where
  "saveDocument d w =
     (case nextFault w of
        Some m \<Rightarrow> (Inl (StoreError m), w\<lparr>writeFaults := tl (writeFaults w)\<rparr>)
      | None \<Rightarrow>
          (Inr (), w\<lparr>documentsColl := upsert docId d (documentsColl w),
                     writeFaults := tl (writeFaults w),
                     trace := trace w @ [DocumentSaved (docId d) (docStatus d)]\<rparr>))"

definition findJobById :: "string \<Rightarrow> world \<Rightarrow> job option" where
  "findJobById jid w = find (\<lambda>j. jobIdent j = jid) (jobsColl w)"

definition findDocumentById :: "string \<Rightarrow> world \<Rightarrow> document option" where
  "findDocumentById did w = find (\<lambda>d. docId d = did) (documentsColl w)"

definition findByIds :: "string list \<Rightarrow> world \<Rightarrow> document list" where
  "findByIds ids w = filter (\<lambda>d. docId d \<in> set ids) (documentsColl w)"

section \<open>ProcessJobUseCase\<close>

text \<open>
  The configuration values the use case reads with \<open>getConfig\<close>. The back-off, rate-limit
  and back-pressure settings only decide how long the run sleeps and are left out, as is the
  clock.
\<close>

record config =
  cfgMaxRetries :: int
  cfgMaxChunkSize :: int
  cfgEnableChunking :: bool
  cfgMaxBatchSize :: int
  cfgMaxConcurrentBatches :: int
  cfgMaxConcurrentWorkers :: int

text \<open>One entry of the \<open>results\<close> array of \<open>extractFromDocument\<close>.\<close>

record chunkResult =
  chunkIndex :: nat
  chunkSize :: nat
  chunkValue :: json

text \<open>
  The collaborators. \<open>extractor did attempt i ty chunk\<close> is what the extractor provider
  answers when it is called with extraction type \<open>ty\<close> on chunk number \<open>i\<close> of document
  \<open>did\<close> during attempt number \<open>attempt\<close> (from 0): a value, or the message of the
  error it throws. \<open>combineChunkResults\<close> merges the chunk results; it works by the
  coercions of the language and a floating-point mean, and is taken as given.
  \<open>writeResultsPort\<close> is \<open>outputService.writeResults\<close>. Both may throw.
\<close>

record ports =
  extractor :: "string \<Rightarrow> nat \<Rightarrow> nat \<Rightarrow> string \<Rightarrow> string \<Rightarrow> string + json"
  combineChunkResults :: "chunkResult list \<Rightarrow> string \<Rightarrow> string + json"
  writeResultsPort :: "string \<Rightarrow> processingResult list \<Rightarrow> string + outputMetadata"

definition supportedTypes :: "string list" where
  "supportedTypes = [''schema'', ''entities'', ''summary'', ''keywords'']"

text \<open>\<open>extractionConfig.type || "schema"\<close>: a missing or empty tag means \<open>schema\<close>.\<close>

definition extractionTypeOf :: "job \<Rightarrow> string" where
  "extractionTypeOf j =
     (case configType (jobExtractionConfig j) of
        None \<Rightarrow> ''schema''
      | Some t \<Rightarrow> if t = [] then ''schema'' else t)"

text \<open>
  The \<open>for\<close> loop over the chunks, from chunk number \<open>i\<close>, with the results so far, and the
  final \<open>combineChunkResults\<close>. The value is the outcome and the events emitted.
\<close>

fun processChunks ::
  "ports \<Rightarrow> string \<Rightarrow> nat \<Rightarrow> string \<Rightarrow> string list \<Rightarrow> nat \<Rightarrow> chunkResult list
     \<Rightarrow> (error + json) \<times> event list" where
  "processChunks P did attempt ty [] i acc =
     (case combineChunkResults P acc ty of
        Inl m \<Rightarrow> (Inl (CombineError m), [])
      | Inr v \<Rightarrow> (Inr v, []))"
| "processChunks P did attempt ty (chunk # rest) i acc =
     (if ty \<in> set supportedTypes then
        (case extractor P did attempt i ty chunk of
           Inl m \<Rightarrow> (Inl (ExtractorError m), [ExtractorCalled did i ty])
         | Inr v \<Rightarrow>
             (let (r, evs) = processChunks P did attempt ty rest (Suc i)
                               (acc @ [\<lparr>chunkIndex = i, chunkSize = length chunk, chunkValue = v\<rparr>])
              in (r, ExtractorCalled did i ty # evs)))
      else (Inl (UnsupportedExtractionType ty), []))"

text \<open>
  \<open>extractFromDocument\<close>. \<open>document.chunkContent(maxChunkSize)\<close> is called with the default
  overlap of 200; when that call does not return, neither does this one (\<open>None\<close>).
\<close>

definition extractFromDocument ::
  "ports \<Rightarrow> config \<Rightarrow> job \<Rightarrow> document \<Rightarrow> nat \<Rightarrow> ((error + json) \<times> event list) option" where
  "extractFromDocument P cfg j d attempt =
     (let extractionType = extractionTypeOf j
      in if cfgEnableChunking cfg \<and> needsChunking (docContent d) (cfgMaxChunkSize cfg) then
           (case chunkContent (docContent d) (cfgMaxChunkSize cfg) 200 of
              None \<Rightarrow> None
            | Some cs \<Rightarrow>
                (let (r, evs) = processChunks P (docId d) attempt extractionType cs 0 []
                 in Some (r, ExtractionStarted (docId d) attempt # ContentChunked (docId d) (length cs) # evs)))
         else
           (let (r, evs) = processChunks P (docId d) attempt extractionType [docContent d] 0 []
            in Some (r, ExtractionStarted (docId d) attempt # evs)))"

definition emit :: "event list \<Rightarrow> world \<Rightarrow> world" where
  "emit evs w = w\<lparr>trace := trace w @ evs\<rparr>"

text \<open>
  The body of the \<open>try\<close> block of \<open>processDocument\<close>: the outcome, the document object as
  the attempt leaves it, and the world.
\<close>

definition attemptDocument ::
  "ports \<Rightarrow> config \<Rightarrow> job \<Rightarrow> document \<Rightarrow> nat \<Rightarrow> world
     \<Rightarrow> ((error + processingResult) \<times> document \<times> world) option" where
  "attemptDocument P cfg j d attempt w =
     (let d1 = document_markProcessing d
      in case saveDocument d1 w of
           (Inl e, w1) \<Rightarrow> Some (Inl e, d1, w1)
         | (Inr _, w1) \<Rightarrow>
             (case extractFromDocument P cfg j d1 attempt of
                None \<Rightarrow> None
              | Some (Inl e, evs) \<Rightarrow> Some (Inl e, d1, emit evs w1)
              | Some (Inr v, evs) \<Rightarrow>
                  (let d2 = document_markCompleted d1 v
                   in case saveDocument d2 (emit evs w1) of
                        (Inl e, w2) \<Rightarrow> Some (Inl e, d2, w2)
                      | (Inr _, w2) \<Rightarrow>
                          Some (Inr \<lparr>prDocumentId = docId d2, prDocumentName = docName d2,
                                     prResult = v, prAttempts = int attempt + 1\<rparr>, d2, w2))))"

text \<open>
  The retry loop \<open>for (let attempt = 0; attempt <= maxRetries; attempt++)\<close> and what
  follows it. The value is \<open>Inr (Some r)\<close> for a result, \<open>Inr None\<close> for \<open>null\<close> and
  \<open>Inl e\<close> when the call throws: the last \<open>save\<close> is outside the \<open>try\<close>, and with a
  negative \<open>maxRetries\<close> the loop body never runs and \<open>lastError.message\<close> reads a
  property of \<open>undefined\<close>.
\<close>

function processDocumentLoop ::
  "ports \<Rightarrow> config \<Rightarrow> job \<Rightarrow> document \<Rightarrow> nat \<Rightarrow> error option \<Rightarrow> world
     \<Rightarrow> ((error + processingResult option) \<times> document \<times> world) option" where
  "processDocumentLoop P cfg j d attempt lastError w =
     (if int attempt \<le> cfgMaxRetries cfg then
        (case attemptDocument P cfg j d attempt w of
           None \<Rightarrow> None
         | Some (Inr r, d', w') \<Rightarrow> Some (Inr (Some r), d', w')
         | Some (Inl e, d', w') \<Rightarrow>
             processDocumentLoop P cfg j d' (Suc attempt) (Some e)
               (emit [AttemptFailed (docId d) (Suc attempt)] w'))
      else
        (case lastError of
           None \<Rightarrow> Some (Inl (TypeError ''Cannot read properties of undefined''), d, w)
         | Some e \<Rightarrow>
             (let d' = document_markFailed d (message e)
              in case saveDocument d' w of
                   (Inl e', w') \<Rightarrow> Some (Inl e', d', w')
                 | (Inr _, w') \<Rightarrow> Some (Inr None, d', w'))))"
  by pat_completeness auto
termination
  by (relation "measure (\<lambda>(P, cfg, j, d, attempt, lastError, w). nat (cfgMaxRetries cfg + 1 - int attempt))")
    auto

declare processDocumentLoop.simps [simp del]

definition processDocument ::
  "ports \<Rightarrow> config \<Rightarrow> job \<Rightarrow> document \<Rightarrow> world
     \<Rightarrow> ((error + processingResult option) \<times> document \<times> world) option" where
  "processDocument P cfg j d w = processDocumentLoop P cfg j d 0 None w"

text \<open>
  A group of workers started together and awaited with \<open>Promise.allSettled\<close>. The workers
  are run one after the other in list order, which is one of the schedules of the event loop;
  \<open>allSettled\<close> lists the outcomes in list order whatever the schedule. A result is kept
  when the worker is fulfilled with a value that is not \<open>null\<close>.
\<close>

fun processWorkerGroup ::
  "ports \<Rightarrow> config \<Rightarrow> job \<Rightarrow> document list \<Rightarrow> world \<Rightarrow> (processingResult list \<times> world) option" where
  "processWorkerGroup P cfg j [] w = Some ([], w)"
| "processWorkerGroup P cfg j (d # ds) w =
     (case processDocument P cfg j d w of
        None \<Rightarrow> None
      | Some (r, d', w') \<Rightarrow>
          (case processWorkerGroup P cfg j ds w' of
             None \<Rightarrow> None
           | Some (rs, w'') \<Rightarrow>
               Some ((case r of Inr (Some x) \<Rightarrow> [x] | _ \<Rightarrow> []) @ rs, w'')))"

text \<open>
  The loops of \<open>processBatch\<close> and \<open>processDocuments\<close> have one shape:
  \<open>for (let i = 0; i < xs.length; i += step)\<close> takes the group
  \<open>xs.slice(i, i + step)\<close>, runs it, waits for it to settle and appends what it gave to
  the results. \<open>waveLoop run step xs i (out, w)\<close> is that loop from index \<open>i\<close> with
  the results \<open>out\<close> so far in world \<open>w\<close>; \<open>run\<close> runs one group. With
  \<open>step \<le> 0\<close> the loop never ends.
\<close>

partial_function (option) waveLoop ::
  "('a list \<Rightarrow> world \<Rightarrow> (processingResult list \<times> world) option) \<Rightarrow> int \<Rightarrow> 'a list \<Rightarrow> int
     \<Rightarrow> processingResult list \<times> world \<Rightarrow> (processingResult list \<times> world) option" where
  "waveLoop run step xs i acc =
     (if i < int (length xs) then
        Option.bind (run (slice xs i (i + step)) (snd acc))
          (\<lambda>(rs, w'). waveLoop run step xs (i + step) (fst acc @ rs, w'))
      else Some acc)"

declare waveLoop.simps [code]

text \<open>
  \<open>processBatch\<close>: groups of \<open>maxConcurrentWorkers\<close> documents. The rate limiter only
  sleeps. Nothing in the body throws past \<open>allSettled\<close>, so a batch that returns is
  fulfilled.
\<close>

definition processBatch ::
  "ports \<Rightarrow> config \<Rightarrow> job \<Rightarrow> document list \<Rightarrow> world \<Rightarrow> (processingResult list \<times> world) option" where
  "processBatch P cfg j batch w =
     waveLoop (processWorkerGroup P cfg j) (cfgMaxConcurrentWorkers cfg) batch 0 ([], w)"

definition createBatches :: "document list \<Rightarrow> int \<Rightarrow> document list list option" where
  "createBatches docs batchSize = sliceLoop docs batchSize 0 []"

text \<open>
  A group of batches started together, run in list order like the workers; every batch is
  fulfilled and its results are appended.
\<close>

fun processBatchGroup ::
  "ports \<Rightarrow> config \<Rightarrow> job \<Rightarrow> document list list \<Rightarrow> world \<Rightarrow> (processingResult list \<times> world) option" where
  "processBatchGroup P cfg j [] w = Some ([], w)"
| "processBatchGroup P cfg j (b # bs) w =
     (case processBatch P cfg j b w of
        None \<Rightarrow> None
      | Some (rs, w') \<Rightarrow>
          (case processBatchGroup P cfg j bs w' of
             None \<Rightarrow> None
           | Some (rs', w'') \<Rightarrow> Some (rs @ rs', w'')))"

text \<open>
  \<open>processDocuments\<close>: groups of \<open>maxConcurrentBatches\<close> batches; \<open>applyBackpressure\<close>
  only sleeps.
\<close>

definition processDocuments ::
  "ports \<Rightarrow> config \<Rightarrow> job \<Rightarrow> document list \<Rightarrow> world \<Rightarrow> (processingResult list \<times> world) option" where
  "processDocuments P cfg j docs w =
     (case createBatches docs (cfgMaxBatchSize cfg) of
        None \<Rightarrow> None
      | Some batches \<Rightarrow>
          waveLoop (processBatchGroup P cfg j) (cfgMaxConcurrentBatches cfg) batches 0 ([], w))"

definition getDocumentsForJob :: "job \<Rightarrow> world \<Rightarrow> document list" where
  "getDocumentsForJob j w = (if length (documentIds j) = 0 then [] else findByIds (documentIds j) w)"

text \<open>The \<open>try\<close> block of \<open>execute\<close>.\<close>

definition executeRun ::
  "ports \<Rightarrow> config \<Rightarrow> string \<Rightarrow> world \<Rightarrow> ((error + summary) \<times> world) option" where
  "executeRun P cfg jid w =
     (case findJobById jid w of
        None \<Rightarrow> Some (Inl (JobNotFound jid), w)
      | Some j0 \<Rightarrow>
          (let j = job_markProcessing j0
           in case saveJob j w of
                (Inl e, w1) \<Rightarrow> Some (Inl e, w1)
              | (Inr _, w1) \<Rightarrow>
                  (let docs = getDocumentsForJob j w1
                   in if length docs = 0 then Some (Inl (NoDocumentsFound jid), w1)
                      else
                        (case processDocuments P cfg j docs w1 of
                           None \<Rightarrow> None
                         | Some (rs, w2) \<Rightarrow>
                             (case writeResultsPort P jid rs of
                                Inl m \<Rightarrow> Some (Inl (OutputError m), emit [ResultsWritten jid rs] w2)
                              | Inr outputMeta \<Rightarrow>
                                  (let processingResult =
                                         \<lparr>sumJobId = jid,
                                          totalDocuments = int (length docs),
                                          processedDocuments = int (length rs),
                                          failedDocuments = int (length docs) - int (length rs),
                                          sumOutputMetadata = outputMeta\<rparr>
                                   in case saveJob (job_markCompleted j processingResult)
                                             (emit [ResultsWritten jid rs] w2) of
                                        (Inl e, w3) \<Rightarrow> Some (Inl e, w3)
                                      | (Inr _, w3) \<Rightarrow> Some (Inr processingResult, w3)))))))"

text \<open>
  The \<open>catch\<close> block of \<open>execute\<close>: the job is read again, marked failed and saved, and the
  error is thrown again; an error of that \<open>save\<close> is the one that leaves \<open>execute\<close>.
\<close>

definition handleFailure :: "string \<Rightarrow> error \<Rightarrow> world \<Rightarrow> (error + summary) \<times> world" where
  "handleFailure jid e w =
     (case findJobById jid w of
        None \<Rightarrow> (Inl e, w)
      | Some j \<Rightarrow>
          (case saveJob (job_markFailed j (message e)) w of
             (Inl e', w') \<Rightarrow> (Inl e', w')
           | (Inr _, w') \<Rightarrow> (Inl e, w')))"

definition execute ::
  "ports \<Rightarrow> config \<Rightarrow> string \<Rightarrow> world \<Rightarrow> ((error + summary) \<times> world) option" where
  "execute P cfg jid w =
     (case executeRun P cfg jid w of
        None \<Rightarrow> None
      | Some (Inr r, w') \<Rightarrow> Some (Inr r, w')
      | Some (Inl e, w') \<Rightarrow> Some (handleFailure jid e w'))"

text \<open>Counting, in a trace, the entries into the extraction of a document and its failed attempts.\<close>

fun isExtractionStarted :: "string \<Rightarrow> event \<Rightarrow> bool" where
  "isExtractionStarted did (ExtractionStarted x a) = (x = did)"
| "isExtractionStarted did _ = False"

fun isAttemptFailed :: "string \<Rightarrow> event \<Rightarrow> bool" where
  "isAttemptFailed did (AttemptFailed x n) = (x = did)"
| "isAttemptFailed did _ = False"

fun isExtractorCalled :: "event \<Rightarrow> bool" where
  "isExtractorCalled (ExtractorCalled x i ty) = True"
| "isExtractorCalled _ = False"

definition extractionAttempts :: "string \<Rightarrow> event list \<Rightarrow> nat" where
  "extractionAttempts did tr = length (filter (isExtractionStarted did) tr)"

definition failedAttempts :: "string \<Rightarrow> event list \<Rightarrow> nat" where
  "failedAttempts did tr = length (filter (isAttemptFailed did) tr)"

text \<open>The statuses that a trace shows written to the store for a job, in order.\<close>

fun jobWrites :: "string \<Rightarrow> event list \<Rightarrow> status list" where
  "jobWrites jid [] = []"
| "jobWrites jid (JobSaved x s # evs) = (if x = jid then s # jobWrites jid evs else jobWrites jid evs)"
| "jobWrites jid (_ # evs) = jobWrites jid evs"

text \<open>The result lists that a trace shows handed to the output writer for a job.\<close>

fun resultsWritten :: "string \<Rightarrow> event list \<Rightarrow> processingResult list list" where
  "resultsWritten jid [] = []"
| "resultsWritten jid (ResultsWritten x rs # evs) =
     (if x = jid then rs # resultsWritten jid evs else resultsWritten jid evs)"
| "resultsWritten jid (_ # evs) = resultsWritten jid evs"

text \<open>
  \<open>jobFrame w w'\<close>: between the two worlds nothing happened to the jobs, neither in the
  collection nor in the trace.
\<close>

definition jobFrame :: "world \<Rightarrow> world \<Rightarrow> bool" where
  "jobFrame w w' \<longleftrightarrow>
     jobsColl w' = jobsColl w
   \<and> (\<forall>jid. jobWrites jid (trace w') = jobWrites jid (trace w))
   \<and> (\<forall>jid. resultsWritten jid (trace w') = resultsWritten jid (trace w))"

text \<open>
  \<open>docFrame ids w w'\<close>: between the two worlds the documents outside \<open>ids\<close> are stored as
  before, and a store without faults has stayed so.
\<close>

definition docFrame :: "string set \<Rightarrow> world \<Rightarrow> world \<Rightarrow> bool" where
  "docFrame ids w w' \<longleftrightarrow>
     (\<forall>x. x \<notin> ids \<longrightarrow> findDocumentById x w' = findDocumentById x w)
   \<and> (writeFaults w = [] \<longrightarrow> writeFaults w' = [])"

section \<open>A job, two documents and collaborators to run the use case on\<close>

text \<open>The values of \<open>appConfig\<close>.\<close>

definition defaultConfig :: config where
  "defaultConfig = \<lparr>cfgMaxRetries = 3, cfgMaxChunkSize = 4000, cfgEnableChunking = True,
                     cfgMaxBatchSize = 100, cfgMaxConcurrentBatches = 10,
                     cfgMaxConcurrentWorkers = 50\<rparr>"

definition job1 :: job where
  "job1 = \<lparr>jobIdent = ''job1'', jobName = ''Test Job'',
            jobExtractionConfig = \<lparr>configType = Some ''entities'', configSchema = None\<rparr>,
            documentIds = [''doc1'', ''doc2''],
            jobStatus = Pending, jobResult = None, jobError = None\<rparr>"

definition doc1 :: document where
  "doc1 = \<lparr>docId = ''doc1'', docName = ''first.txt'', docContent = ''Alice met Bob.'',
            docStatus = Pending, docResult = None, docError = None\<rparr>"

definition doc2 :: document where
  "doc2 = \<lparr>docId = ''doc2'', docName = ''second.txt'', docContent = ''Carol left.'',
            docStatus = Pending, docResult = None, docError = None\<rparr>"

definition world1 :: world where
  "world1 = \<lparr>jobsColl = [job1], documentsColl = [doc1, doc2], writeFaults = [], trace = []\<rparr>"

text \<open>
  Collaborators: the merge keeps the first chunk's value, the output writer reports no
  files, and the extractor answers with the chunk it was given, always fails, fails on the
  first two attempts, or fails on \<open>doc2\<close> only.
\<close>

definition firstChunkValue :: "chunkResult list \<Rightarrow> string \<Rightarrow> string + json" where
  "firstChunkValue acc ty = (case acc of [] \<Rightarrow> Inr (JArr []) | c # _ \<Rightarrow> Inr (chunkValue c))"

definition noFiles :: "string \<Rightarrow> processingResult list \<Rightarrow> string + outputMetadata" where
  "noFiles jid rs = Inr \<lparr>metaJobId = jid, outputFiles = [], totalRecords = int (length rs),
                         totalFiles = 0, metaFormat = ''jsonl'', metaCompression = True\<rparr>"

definition echoPorts :: ports where
  "echoPorts = \<lparr>extractor = (\<lambda>did attempt i ty chunk. Inr (JStr chunk)),
                 combineChunkResults = firstChunkValue, writeResultsPort = noFiles\<rparr>"

definition failingPorts :: ports where
  "failingPorts = \<lparr>extractor = (\<lambda>did attempt i ty chunk. Inl ''extractor unavailable''),
                    combineChunkResults = firstChunkValue, writeResultsPort = noFiles\<rparr>"

definition failsTwicePorts :: ports where
  "failsTwicePorts = \<lparr>extractor = (\<lambda>did attempt i ty chunk.
                          if attempt < 2 then Inl ''timeout'' else Inr (JStr chunk)),
                       combineChunkResults = firstChunkValue, writeResultsPort = noFiles\<rparr>"


text \<open>
  A job with an extraction type outside the four, a job with an empty type tag, a
  document of 252 characters with a chunk size of 251, and a chunk size of 10.
\<close>

definition sentimentJob :: job where
  "sentimentJob = job1\<lparr>jobExtractionConfig := \<lparr>configType = Some ''sentiment'', configSchema = None\<rparr>\<rparr>"

definition untypedJob :: job where
  "untypedJob = job1\<lparr>jobExtractionConfig := \<lparr>configType = Some [], configSchema = None\<rparr>\<rparr>"

definition longDocument :: document where
  "longDocument = doc1\<lparr>docContent := replicate 252 (CHR ''a'')\<rparr>"

definition smallChunkConfig :: config where
  "smallChunkConfig = defaultConfig\<lparr>cfgMaxChunkSize := 251\<rparr>"

text \<open>
  Worlds for the failure paths: the store holds the job but none of its documents, once
  sound and once refusing its second write; the store holds the job and only the first of
  its two documents; and the job has been completed by an earlier run.
\<close>

definition worldNoDocuments :: world where
  "worldNoDocuments = \<lparr>jobsColl = [job1], documentsColl = [], writeFaults = [], trace = []\<rparr>"


definition worldMissingDoc2 :: world where
  "worldMissingDoc2 = \<lparr>jobsColl = [job1], documentsColl = [doc1], writeFaults = [], trace = []\<rparr>"



definition tinyChunkConfig :: config where
  "tinyChunkConfig = defaultConfig\<lparr>cfgMaxChunkSize := 10\<rparr>"

section \<open>Chunking: termination\<close>

lemma windowEnd_progress:
  assumes "0 < maxChunkSize" and "5 * overlap < 4 * maxChunkSize"
  shows "start < windowEnd content maxChunkSize start - overlap"
  using assms by (auto simp: windowEnd_def Let_def)

lemma chunkLoop_terminates:
  assumes "0 < maxChunkSize" and "5 * overlap < 4 * maxChunkSize"
  shows "\<exists>cs. chunkLoop content maxChunkSize overlap start chunks = Some cs"
proof (induction "nat (int (length content) - start)" arbitrary: start chunks
    rule: less_induct)
  case less
  show ?case
  proof (cases "start < int (length content)")
    case False
    then show ?thesis by (subst chunkLoop.simps) simp
  next
    case True
    let ?s = "windowEnd content maxChunkSize start - overlap"
    have "start < ?s" using assms by (rule windowEnd_progress)
    with True have "nat (int (length content) - ?s) < nat (int (length content) - start)"
      by linarith
    from less [OF this] obtain cs where
      "chunkLoop content maxChunkSize overlap ?s
         (chunks @ [substring content start (windowEnd content maxChunkSize start)]) = Some cs"
      by blast
    with True show ?thesis by (subst chunkLoop.simps) simp
  qed
qed

text \<open>A run that never leaves the loop: the window start stays at 0.\<close>

lemma windowEnd_aaa: "windowEnd ''aaa'' 2 0 = 2"
  by code_simp

lemma chunkLoop_stuck: "chunkLoop ''aaa'' 2 2 0 chunks = None"
proof -
  have "\<not> (content = ''aaa'' \<and> m = 2 \<and> ov = 2 \<and> st = 0)"
    if "chunkLoop content m ov st chunks = Some cs" for content m ov st cs
    using that
  proof (rule chunkLoop.raw_induct [where P = "\<lambda>content m ov st chunks cs.
            \<not> (content = ''aaa'' \<and> m = 2 \<and> ov = 2 \<and> st = 0)", rotated])
    fix f content m ov st chunks cs
    assume ih: "\<And>content m ov st chunks cs. f content m ov st chunks = Some cs \<Longrightarrow>
            \<not> (content = ''aaa'' \<and> m = (2::int) \<and> ov = (2::int) \<and> st = (0::int))"
      and step: "(if st < int (length content) then
        f content m ov (windowEnd content m st - ov)
          (chunks @ [substring content st (windowEnd content m st)])
      else Some chunks) = Some cs"
    show "\<not> (content = ''aaa'' \<and> m = 2 \<and> ov = 2 \<and> st = 0)"
    proof
      assume "content = ''aaa'' \<and> m = 2 \<and> ov = 2 \<and> st = 0"
      with step have "f ''aaa'' 2 2 0 (chunks @ [substring ''aaa'' 0 2]) = Some cs"
        by (simp add: windowEnd_aaa)
      from ih [OF this] show False by simp
    qed
  qed
  from this [of "''aaa''" 2 2 0] show ?thesis
    by (cases "chunkLoop ''aaa'' 2 2 0 chunks") auto
qed

text \<open>
  C10. For every content and all parameters with \<open>maxChunkSize > 0\<close> and
  \<open>0 \<le> chunkOverlap < 0.8 * maxChunkSize\<close>, the loop of \<open>chunkContent\<close> terminates
  (the call returns a list of chunks), and every iteration strictly increases the window
  start. Without the precondition the start need not advance: with \<open>chunkOverlap =
  maxChunkSize = 2\<close> on a three-character content the call never returns.
\<close>

theorem chunkContent_terminates:
  assumes "0 < maxChunkSize" and "0 \<le> overlap" and "5 * overlap < 4 * maxChunkSize"
  shows "(\<exists>chunks. chunkContent content maxChunkSize overlap = Some chunks)
       \<and> (\<forall>start. start < windowEnd content maxChunkSize start - overlap)
       \<and> chunkContent ''aaa'' 2 2 = None"
proof -
  have "\<exists>chunks. chunkContent content maxChunkSize overlap = Some chunks"
    using chunkLoop_terminates [OF assms(1) assms(3)] by (simp add: chunkContent_def)
  moreover have "\<forall>start. start < windowEnd content maxChunkSize start - overlap"
    using windowEnd_progress [OF assms(1) assms(3)] by blast
  moreover have "chunkContent ''aaa'' 2 2 = None"
    by (simp add: chunkContent_def needsChunking_def getSize_def chunkLoop_stuck)
  ultimately show ?thesis by blast
qed

theorem chunkContent_terminates_witness:
  "(0::int) < 10 \<and> (0::int) \<le> 2 \<and> 5 * (2::int) < 4 * 10
   \<and> (\<exists>chunks. chunkContent ''aaaaaaaaaa.aaaa'' 10 2 = Some chunks)
   \<and> (\<forall>start. start < windowEnd ''aaaaaaaaaa.aaaa'' 10 start - 2)"
  using chunkContent_terminates [of 10 2 "''aaaaaaaaaa.aaaa''"] by simp

section \<open>Chunking: the size of a window\<close>

text \<open>Under the precondition of termination no window exceeds \<open>maxChunkSize + 1\<close> characters.\<close>

lemma lastIndexOf_le: "lastIndexOf s c p \<le> max p 0"
proof -
  let ?n = "nat (min (max p 0) (int (length s) - 1) + 1)"
  let ?hits = "filter (\<lambda>k. s ! k = c) [0..<?n]"
  show ?thesis
  proof (cases "?hits = []")
    case True
    then show ?thesis by (simp add: lastIndexOf_def Let_def)
  next
    case False
    then have "last ?hits \<in> set ?hits" by (rule last_in_set)
    then have "last ?hits < ?n" by simp
    then have "int (last ?hits) \<le> max p 0" by linarith
    with False show ?thesis by (simp add: lastIndexOf_def Let_def)
  qed
qed

lemma windowEnd_le:
  assumes "0 \<le> start + maxChunkSize"
  shows "windowEnd content maxChunkSize start \<le> start + maxChunkSize + 1"
  using assms lastIndexOf_le [of content "CHR ''.''" "start + maxChunkSize"]
    lastIndexOf_le [of content "CHR 0x0A" "start + maxChunkSize"]
  by (auto simp: windowEnd_def Let_def)

lemma substring_length: "0 \<le> a \<Longrightarrow> a \<le> b \<Longrightarrow> int (length (substring s a b)) \<le> b - a"
  by (auto simp: substring_def Let_def min_def max_def)

lemma chunkLoop_window_bound:
  assumes "chunkLoop content m ov st acc = Some cs"
    and "0 < m" and "0 \<le> ov" and "5 * ov < 4 * m" and "0 \<le> st"
    and "\<forall>c \<in> set acc. int (length c) \<le> m + 1"
  shows "\<forall>c \<in> set cs. int (length c) \<le> m + 1"
proof -
  have "0 < m \<and> 0 \<le> ov \<and> 5 * ov < 4 * m \<and> 0 \<le> st \<and> (\<forall>c \<in> set acc. int (length c) \<le> m + 1)
        \<longrightarrow> (\<forall>c \<in> set cs. int (length c) \<le> m + 1)"
    using assms(1)
  proof (rule chunkLoop.raw_induct [where P = "\<lambda>content m ov st acc cs.
        0 < m \<and> 0 \<le> ov \<and> 5 * ov < 4 * m \<and> 0 \<le> st \<and> (\<forall>c \<in> set acc. int (length c) \<le> m + 1)
        \<longrightarrow> (\<forall>c \<in> set cs. int (length c) \<le> m + 1)", rotated])
    fix f content m ov st acc cs
    assume ih: "\<And>content m ov st acc cs. f content m ov st acc = Some cs \<Longrightarrow>
        0 < m \<and> 0 \<le> ov \<and> 5 * ov < 4 * m \<and> 0 \<le> st \<and> (\<forall>c \<in> set acc. int (length c) \<le> m + 1)
        \<longrightarrow> (\<forall>c \<in> set cs. int (length c) \<le> m + 1)"
      and step: "(if st < int (length content) then
          f content m ov (windowEnd content m st - ov) (acc @ [substring content st (windowEnd content m st)])
        else Some acc) = Some cs"
    show "0 < m \<and> 0 \<le> ov \<and> 5 * ov < 4 * m \<and> 0 \<le> st \<and> (\<forall>c \<in> set acc. int (length c) \<le> m + 1)
        \<longrightarrow> (\<forall>c \<in> set cs. int (length c) \<le> m + 1)"
    proof
      assume h: "0 < m \<and> 0 \<le> ov \<and> 5 * ov < 4 * m \<and> 0 \<le> st \<and> (\<forall>c \<in> set acc. int (length c) \<le> m + 1)"
      show "\<forall>c \<in> set cs. int (length c) \<le> m + 1"
      proof (cases "st < int (length content)")
        case False
        with step h show ?thesis by simp
      next
        case True
        let ?e = "windowEnd content m st"
        have p: "st < ?e - ov" using h windowEnd_progress [of m ov st content] by simp
        have le: "?e \<le> st + m + 1" using h windowEnd_le [of st m content] by simp
        have "int (length (substring content st ?e)) \<le> ?e - st"
          using h p by (intro substring_length) auto
        with le have b: "int (length (substring content st ?e)) \<le> m + 1" by linarith
        from True step have "f content m ov (?e - ov) (acc @ [substring content st ?e]) = Some cs"
          by simp
        from ih [OF this] h p b show ?thesis by auto
      qed
    qed
  qed
  with assms show ?thesis by blast
qed

lemma chunkContent_window_bound:
  assumes "chunkContent content maxChunkSize overlap = Some cs"
    and "0 < maxChunkSize" and "0 \<le> overlap" and "5 * overlap < 4 * maxChunkSize"
  shows "\<forall>c \<in> set cs. int (length c) \<le> maxChunkSize + 1"
proof (cases "needsChunking content maxChunkSize")
  case False
  with assms(1) show ?thesis by (auto simp: chunkContent_def needsChunking_def getSize_def)
next
  case True
  with assms(1) have "chunkLoop content maxChunkSize overlap 0 [] = Some cs"
    by (simp add: chunkContent_def)
  from chunkLoop_window_bound [OF this assms(2,3,4)] show ?thesis by simp
qed

text \<open>
  C8. A content longer than \<open>maxChunkSize\<close> is cut into windows; the next window starts
  \<open>chunkOverlap\<close> characters before the end of the previous one, and a window that is not the
  last ends after the last \<open>.\<close> or newline near its end. The search for that boundary
  starts at index \<open>start + maxChunkSize\<close> itself, one past the window, so a boundary
  character there makes the window \<open>maxChunkSize + 1\<close> characters long: with
  \<open>maxChunkSize = 10\<close> and \<open>chunkOverlap = 2\<close> the first window of the content below has
  11 characters.
\<close>

theorem chunkContent_window_exceeds_maxChunkSize:
  "chunkContent ''aaaaaaaaaa.aaaa'' 10 2 = Some [''aaaaaaaaaa.'', ''a.aaaa'']
   \<and> needsChunking ''aaaaaaaaaa.aaaa'' 10
   \<and> int (length ''aaaaaaaaaa.'') = 10 + 1"
  by code_simp

section \<open>The slicing loop\<close>



section \<open>Reading a damaged collection file\<close>








text \<open>When no line of the damaged file is valid, the file is copied aside and reset.\<close>

lemma getAll_backup_when_no_line_valid:
  assumes "fs file = Some data" and "\<not> trimIsEmpty data" and "parse data = None"
    and "validLines parse data = []"
  shows "getAll file parse now fs = (JArr [], fs(backupFile file now \<mapsto> data, file \<mapsto> ''[]''))"
  using assms by (simp add: getAll_def)




section \<open>Sharded output writer: three shards\<close>


lemma toString_small: "toString 0 = ''0''" "toString (Suc 0) = ''1''" "toString (Suc (Suc 0)) = ''2''"
  by code_simp+

lemma generateFileName_0: "generateFileName jid 0 fmt c = ''results_'' @ jid @ ''_shard_0000.'' @ fmt @ (if c then ''.gz'' else [])"
  by (simp add: generateFileName_def padStart_def toString_small Let_def eval_nat_numeral)
lemma generateFileName_1: "generateFileName jid (Suc 0) fmt c = ''results_'' @ jid @ ''_shard_0001.'' @ fmt @ (if c then ''.gz'' else [])"
  by (simp add: generateFileName_def padStart_def toString_small Let_def eval_nat_numeral)
lemma generateFileName_2: "generateFileName jid (Suc (Suc 0)) fmt c = ''results_'' @ jid @ ''_shard_0002.'' @ fmt @ (if c then ''.gz'' else [])"
  by (simp add: generateFileName_def padStart_def toString_small Let_def eval_nat_numeral)

lemma three_paths_distinct:
  "generateFileName jid 0 fmt c \<noteq> generateFileName jid (Suc 0) fmt c"
  "generateFileName jid 0 fmt c \<noteq> generateFileName jid (Suc (Suc 0)) fmt c"
  "generateFileName jid (Suc 0) fmt c \<noteq> generateFileName jid (Suc (Suc 0)) fmt c"
  by (simp_all add: generateFileName_0 generateFileName_1 generateFileName_2)

lemma generateFileName_not_metadata: "generateFileName jid i fmt c \<noteq> ''metadata.json''"
  by (simp add: generateFileName_def Let_def)



section \<open>Processing one document\<close>

lemma processChunks_events:
  "processChunks P did a ty cs i acc = (r, evs) \<Longrightarrow> list_all isExtractorCalled evs"
proof (induction cs arbitrary: i acc r evs)
  case Nil
  then show ?case by (auto split: sum.splits)
next
  case (Cons c cs)
  then show ?case
    by (auto split: sum.splits if_splits prod.splits)
qed

lemma isExtractorCalled_not_started:
  "list_all isExtractorCalled evs \<Longrightarrow> filter (isExtractionStarted did) evs = []"
  by (induction evs) (auto elim: isExtractorCalled.elims)

lemma isExtractorCalled_not_failed:
  "list_all isExtractorCalled evs \<Longrightarrow> filter (isAttemptFailed did) evs = []"
  by (induction evs) (auto elim: isExtractorCalled.elims)

lemma extractFromDocument_counts:
  assumes "extractFromDocument P cfg j d a = Some (r, evs)"
  shows "extractionAttempts (docId d) evs = 1" and "failedAttempts did evs = 0"
proof -
  obtain cs r' evs' where p: "processChunks P (docId d) a (extractionTypeOf j) cs 0 [] = (r', evs')"
    and e: "evs = ExtractionStarted (docId d) a # evs'
          \<or> evs = ExtractionStarted (docId d) a # ContentChunked (docId d) (length cs) # evs'"
    using assms
    by (auto simp del: processChunks.simps simp: extractFromDocument_def Let_def
        split: option.splits prod.splits if_splits)
  from processChunks_events [OF p] have "list_all isExtractorCalled evs'" .
  with e show "extractionAttempts (docId d) evs = 1" and "failedAttempts did evs = 0"
    by (auto simp: extractionAttempts_def failedAttempts_def
        isExtractorCalled_not_started isExtractorCalled_not_failed)
qed

lemma extractFromDocument_cong:
  "docId d' = docId d \<Longrightarrow> docContent d' = docContent d \<Longrightarrow>
   extractFromDocument P cfg j d' a = extractFromDocument P cfg j d a"
  by (simp add: extractFromDocument_def Let_def cong: if_cong option.case_cong)

lemma saveDocument_trace:
  "saveDocument d w = (r, w') \<Longrightarrow>
     extractionAttempts x (trace w') = extractionAttempts x (trace w)
   \<and> failedAttempts x (trace w') = failedAttempts x (trace w)"
  by (auto simp: saveDocument_def extractionAttempts_def failedAttempts_def split: option.splits)

lemma saveDocument_faults:
  "saveDocument d w = (r, w') \<Longrightarrow> writeFaults w = [] \<Longrightarrow> writeFaults w' = [] \<and> r = Inr ()"
  by (auto simp: saveDocument_def nextFault_def split: option.splits)

text \<open>What one attempt does when its extraction fails.\<close>

lemma attemptDocument_extraction_fails:
  assumes "extractFromDocument P cfg j d a = Some (Inl e, evs)"
  shows "\<exists>e' d' w'. attemptDocument P cfg j d a w = Some (Inl e', d', w')
          \<and> docId d' = docId d \<and> docContent d' = docContent d \<and> docName d' = docName d
          \<and> failedAttempts x (trace w') = failedAttempts x (trace w)
          \<and> (writeFaults w = [] \<longrightarrow> writeFaults w' = []
                \<and> extractionAttempts (docId d) (trace w') = Suc (extractionAttempts (docId d) (trace w)))"
proof -
  let ?d1 = "document_markProcessing d"
  have ex: "extractFromDocument P cfg j ?d1 a = Some (Inl e, evs)"
    using assms extractFromDocument_cong [of ?d1 d] by (simp add: document_markProcessing_def)
  obtain r w1 where s: "saveDocument ?d1 w = (r, w1)" by (cases "saveDocument ?d1 w")
  note t = saveDocument_trace [OF s] saveDocument_faults [OF s]
  have c: "extractionAttempts (docId d) evs = 1" "failedAttempts x evs = 0"
    using extractFromDocument_counts [OF assms] by auto
  show ?thesis
  proof (cases r)
    case (Inl e1)
    with s t show ?thesis
      by (auto simp: attemptDocument_def Let_def document_markProcessing_def)
  next
    case (Inr u)
    with s t ex c show ?thesis
      by (auto simp: attemptDocument_def Let_def document_markProcessing_def emit_def
          extractionAttempts_def failedAttempts_def)
  qed
qed


lemma find_upsert: "find (\<lambda>y. key y = key x) (upsert key x ys) = Some x"
  by (induction ys) auto


lemma saveDocument_find:
  "saveDocument d w = (Inr u, w') \<Longrightarrow> findDocumentById (docId d) w' = Some d"
  by (auto simp: saveDocument_def findDocumentById_def find_upsert split: option.splits)

lemma emit_simps [simp]:
  "trace (emit evs w) = trace w @ evs"
  "writeFaults (emit evs w) = writeFaults w"
  "documentsColl (emit evs w) = documentsColl w"
  "jobsColl (emit evs w) = jobsColl w"
  by (simp_all add: emit_def)

lemma processDocumentLoop_all_fail:
  assumes "\<forall>a. attempt \<le> a \<and> int a \<le> cfgMaxRetries cfg \<longrightarrow>
             (\<exists>e evs. extractFromDocument P cfg j d a = Some (Inl e, evs))"
    and "lastError \<noteq> None \<or> int attempt \<le> cfgMaxRetries cfg"
  shows "\<exists>r d' w'. processDocumentLoop P cfg j d attempt lastError w = Some (r, d', w')
        \<and> (\<forall>x. r \<noteq> Inr (Some x))
        \<and> docId d' = docId d
        \<and> failedAttempts (docId d) (trace w') =
            failedAttempts (docId d) (trace w) + nat (cfgMaxRetries cfg + 1 - int attempt)
        \<and> (writeFaults w = [] \<longrightarrow>
              r = Inr None \<and> docStatus d' = Failed \<and> writeFaults w' = []
            \<and> findDocumentById (docId d) w' = Some d'
            \<and> extractionAttempts (docId d) (trace w') =
                extractionAttempts (docId d) (trace w) + nat (cfgMaxRetries cfg + 1 - int attempt))"
  using assms
proof (induction "nat (cfgMaxRetries cfg + 1 - int attempt)" arbitrary: d attempt lastError w)
  case 0
  then have gt: "\<not> int attempt \<le> cfgMaxRetries cfg" by linarith
  with 0 obtain e where le: "lastError = Some e" by auto
  let ?d' = "document_markFailed d (message e)"
  obtain r w' where s: "saveDocument ?d' w = (r, w')" by (cases "saveDocument ?d' w")
  note t = saveDocument_trace [OF s] saveDocument_faults [OF s]
  have n0: "nat (cfgMaxRetries cfg + 1 - int attempt) = 0" using gt by simp
  show ?case
  proof (cases r)
    case (Inl e')
    with s t gt le n0 show ?thesis
      by (subst processDocumentLoop.simps) (auto simp: Let_def document_markFailed_def)
  next
    case (Inr u)
    with s have "findDocumentById (docId ?d') w' = Some ?d'" by (simp add: saveDocument_find)
    with Inr s t gt le n0 show ?thesis
      by (subst processDocumentLoop.simps) (auto simp: Let_def document_markFailed_def)
  qed
next
  case (Suc n)
  then have le: "int attempt \<le> cfgMaxRetries cfg" by linarith
  with Suc.prems obtain e evs where ex: "extractFromDocument P cfg j d attempt = Some (Inl e, evs)"
    by blast
  from attemptDocument_extraction_fails [OF ex, where x = "docId d" and w = w]
  obtain e' d1 w1 where a: "attemptDocument P cfg j d attempt w = Some (Inl e', d1, w1)"
    and d1: "docId d1 = docId d" "docContent d1 = docContent d"
    and f1: "failedAttempts (docId d) (trace w1) = failedAttempts (docId d) (trace w)"
    and nf: "writeFaults w = [] \<longrightarrow> writeFaults w1 = []
              \<and> extractionAttempts (docId d) (trace w1) = Suc (extractionAttempts (docId d) (trace w))"
    by blast
  let ?w2 = "emit [AttemptFailed (docId d) (Suc attempt)] w1"
  have n: "n = nat (cfgMaxRetries cfg + 1 - int (Suc attempt))" using Suc.hyps(2) by linarith
  have fails1: "\<forall>a. Suc attempt \<le> a \<and> int a \<le> cfgMaxRetries cfg \<longrightarrow>
             (\<exists>e evs. extractFromDocument P cfg j d1 a = Some (Inl e, evs))"
    using Suc.prems(1) extractFromDocument_cong [OF d1] by (metis Suc_leD)
  from Suc.hyps(1) [OF n fails1, of "Some e'" ?w2]
  obtain r d' w' where l: "processDocumentLoop P cfg j d1 (Suc attempt) (Some e') ?w2 = Some (r, d', w')"
    and r: "\<forall>x. r \<noteq> Inr (Some x)" and d': "docId d' = docId d1"
    and f2: "failedAttempts (docId d1) (trace w') =
            failedAttempts (docId d1) (trace ?w2) + nat (cfgMaxRetries cfg + 1 - int (Suc attempt))"
    and nf2: "writeFaults ?w2 = [] \<longrightarrow>
              r = Inr None \<and> docStatus d' = Failed \<and> writeFaults w' = []
            \<and> findDocumentById (docId d1) w' = Some d'
            \<and> extractionAttempts (docId d1) (trace w') =
                extractionAttempts (docId d1) (trace ?w2) + nat (cfgMaxRetries cfg + 1 - int (Suc attempt))"
    by auto
  have step: "processDocumentLoop P cfg j d attempt lastError w = Some (r, d', w')"
    using le a l by (subst processDocumentLoop.simps) simp
  have cnt: "nat (cfgMaxRetries cfg + 1 - int attempt) = Suc (nat (cfgMaxRetries cfg + 1 - int (Suc attempt)))"
    using le by linarith
  have fa: "failedAttempts (docId d) (trace ?w2) = Suc (failedAttempts (docId d) (trace w))"
    using f1 by (simp add: failedAttempts_def)
  have ea: "extractionAttempts (docId d) (trace ?w2) = extractionAttempts (docId d) (trace w1)"
    by (simp add: extractionAttempts_def)
  show ?case
    using step r d' d1 f2 nf2 nf fa ea cnt by auto
qed


text \<open>What one attempt does in general, and when its extraction succeeds on a sound store.\<close>

lemma attemptDocument_general:
  assumes "attemptDocument P cfg j d a w = Some (r, d', w')"
  shows "failedAttempts x (trace w') = failedAttempts x (trace w)"
    and "docId d' = docId d"
    and "r = Inr pr \<Longrightarrow> prAttempts pr = int a + 1 \<and> prDocumentId pr = docId d"
proof -
  let ?d1 = "document_markProcessing d"
  obtain r1 w1 where s1: "saveDocument ?d1 w = (r1, w1)" by (cases "saveDocument ?d1 w")
  note t1 = saveDocument_trace [OF s1, of x]
  show "failedAttempts x (trace w') = failedAttempts x (trace w)"
  proof (cases r1)
    case (Inl e)
    with assms s1 t1 show ?thesis by (auto simp: attemptDocument_def Let_def)
  next
    case (Inr u)
    show ?thesis
    proof (cases "extractFromDocument P cfg j ?d1 a")
      case None
      with assms s1 Inr show ?thesis by (simp add: attemptDocument_def Let_def)
    next
      case (Some p)
      obtain o1 evs where p: "p = (o1, evs)" by (cases p)
      have c: "failedAttempts x evs = 0"
        using extractFromDocument_counts(2) Some p by blast
      show ?thesis
      proof (cases o1)
        case (Inl e)
        with assms s1 Inr Some p t1 c show ?thesis
          by (auto simp: attemptDocument_def Let_def failedAttempts_def)
      next
        case v: (Inr v)
        let ?d2 = "document_markCompleted ?d1 v"
        obtain r2 w2 where s2: "saveDocument ?d2 (emit evs w1) = (r2, w2)"
          by (cases "saveDocument ?d2 (emit evs w1)")
        note t2 = saveDocument_trace [OF s2, of x]
        from assms s1 Inr Some p v s2 t1 t2 c show ?thesis
          by (cases r2) (auto simp: attemptDocument_def Let_def failedAttempts_def)
      qed
    qed
  qed
  show "docId d' = docId d"
    using assms
    by (auto simp: attemptDocument_def Let_def document_markProcessing_def document_markCompleted_def
        split: prod.splits sum.splits option.splits)
  show "r = Inr pr \<Longrightarrow> prAttempts pr = int a + 1 \<and> prDocumentId pr = docId d"
    using assms
    by (auto simp: attemptDocument_def Let_def document_markProcessing_def document_markCompleted_def
        split: prod.splits sum.splits option.splits)
qed

lemma attemptDocument_extraction_succeeds:
  assumes "extractFromDocument P cfg j d a = Some (Inr v, evs)" and "writeFaults w = []"
  shows "\<exists>d' w'. attemptDocument P cfg j d a w =
            Some (Inr \<lparr>prDocumentId = docId d, prDocumentName = docName d,
                       prResult = v, prAttempts = int a + 1\<rparr>, d', w')
          \<and> docId d' = docId d \<and> docStatus d' = Completed \<and> docResult d' = Some v
          \<and> writeFaults w' = []
          \<and> findDocumentById (docId d) w' = Some d'
          \<and> extractionAttempts (docId d) (trace w') = Suc (extractionAttempts (docId d) (trace w))"
proof -
  let ?d1 = "document_markProcessing d"
  let ?d2 = "document_markCompleted ?d1 v"
  have ex: "extractFromDocument P cfg j ?d1 a = Some (Inr v, evs)"
    using assms extractFromDocument_cong [of ?d1 d] by (simp add: document_markProcessing_def)
  obtain r1 w1 where s1: "saveDocument ?d1 w = (r1, w1)" by (cases "saveDocument ?d1 w")
  from saveDocument_faults [OF s1 assms(2)] have f1: "writeFaults w1 = []" "r1 = Inr ()" by auto
  obtain r2 w2 where s2: "saveDocument ?d2 (emit evs w1) = (r2, w2)"
    by (cases "saveDocument ?d2 (emit evs w1)")
  from saveDocument_faults [OF s2] f1 have f2: "writeFaults w2 = []" "r2 = Inr ()" by auto
  have fd: "findDocumentById (docId ?d2) w2 = Some ?d2"
    using s2 f2 by (simp add: saveDocument_find)
  have c: "extractionAttempts (docId d) evs = 1"
    using extractFromDocument_counts(1) [OF assms(1)] .
  have tr: "extractionAttempts (docId d) (trace w2) = Suc (extractionAttempts (docId d) (trace w))"
    using saveDocument_trace [OF s1, of "docId d"] saveDocument_trace [OF s2, of "docId d"] c
    by (simp add: extractionAttempts_def)
  show ?thesis
    using s1 s2 f1 f2 ex fd tr
    by (auto simp: attemptDocument_def Let_def document_markProcessing_def document_markCompleted_def)
qed

lemma processDocumentLoop_succeeds_at:
  assumes "writeFaults w = []" and "int k \<le> cfgMaxRetries cfg" and "attempt \<le> k"
    and "\<forall>a. attempt \<le> a \<and> a < k \<longrightarrow> (\<exists>e evs. extractFromDocument P cfg j d a = Some (Inl e, evs))"
    and "extractFromDocument P cfg j d k = Some (Inr v, evs)"
  shows "\<exists>d' w'. processDocumentLoop P cfg j d attempt lastError w =
            Some (Inr (Some \<lparr>prDocumentId = docId d, prDocumentName = docName d,
                       prResult = v, prAttempts = int k + 1\<rparr>), d', w')
          \<and> docStatus d' = Completed \<and> writeFaults w' = []
          \<and> findDocumentById (docId d) w' = Some d'
          \<and> extractionAttempts (docId d) (trace w') =
              extractionAttempts (docId d) (trace w) + (k - attempt) + 1"
  using assms
proof (induction "k - attempt" arbitrary: d attempt lastError w)
  case 0
  then have eq: "attempt = k" by simp
  from attemptDocument_extraction_succeeds [OF "0.prems"(5) "0.prems"(1)]
  obtain d' w' where "attemptDocument P cfg j d k w =
            Some (Inr \<lparr>prDocumentId = docId d, prDocumentName = docName d,
                       prResult = v, prAttempts = int k + 1\<rparr>, d', w')"
    "docStatus d' = Completed" "writeFaults w' = []" "findDocumentById (docId d) w' = Some d'"
    "extractionAttempts (docId d) (trace w') = Suc (extractionAttempts (docId d) (trace w))"
    by blast
  with eq "0.prems"(2) show ?case
    by (subst processDocumentLoop.simps) simp
next
  case (Suc n)
  then have lt: "attempt < k" by linarith
  with Suc.prems have le: "int attempt \<le> cfgMaxRetries cfg" by linarith
  from lt Suc.prems(4) obtain e evs1 where ex: "extractFromDocument P cfg j d attempt = Some (Inl e, evs1)"
    by blast
  from attemptDocument_extraction_fails [OF ex, where x = "docId d" and w = w] Suc.prems(1)
  obtain e' d1 w1 where a: "attemptDocument P cfg j d attempt w = Some (Inl e', d1, w1)"
    and d1: "docId d1 = docId d" "docContent d1 = docContent d" "docName d1 = docName d"
    and nf: "writeFaults w1 = []"
      "extractionAttempts (docId d) (trace w1) = Suc (extractionAttempts (docId d) (trace w))"
    by blast
  let ?w2 = "emit [AttemptFailed (docId d) (Suc attempt)] w1"
  have n: "n = k - Suc attempt" using Suc.hyps(2) by linarith
  have fails1: "\<forall>a. Suc attempt \<le> a \<and> a < k \<longrightarrow>
             (\<exists>e evs. extractFromDocument P cfg j d1 a = Some (Inl e, evs))"
    using Suc.prems(4) extractFromDocument_cong [OF d1(1,2)] by (metis Suc_leD)
  have ok1: "extractFromDocument P cfg j d1 k = Some (Inr v, evs)"
    using Suc.prems(5) extractFromDocument_cong [OF d1(1,2)] by simp
  have nf2: "writeFaults ?w2 = []" using nf by simp
  from Suc.hyps(1) [OF n nf2 Suc.prems(2) _ fails1 ok1, of "Some e'"] lt
  obtain d' w' where l: "processDocumentLoop P cfg j d1 (Suc attempt) (Some e') ?w2 =
            Some (Inr (Some \<lparr>prDocumentId = docId d1, prDocumentName = docName d1,
                       prResult = v, prAttempts = int k + 1\<rparr>), d', w')"
    and r: "docStatus d' = Completed" "writeFaults w' = []" "findDocumentById (docId d1) w' = Some d'"
      "extractionAttempts (docId d1) (trace w') =
              extractionAttempts (docId d1) (trace ?w2) + (k - Suc attempt) + 1"
    by auto
  have step: "processDocumentLoop P cfg j d attempt lastError w =
      processDocumentLoop P cfg j d1 (Suc attempt) (Some e') ?w2"
    using le a by (subst processDocumentLoop.simps) simp
  have ea: "extractionAttempts (docId d) (trace ?w2) = extractionAttempts (docId d) (trace w1)"
    by (simp add: extractionAttempts_def)
  show ?case
    using step l r d1 nf ea lt by auto
qed

text \<open>Whatever the store does: a returned result carries the number of the attempt that made it.\<close>

lemma processDocumentLoop_result_attempts:
  assumes "processDocumentLoop P cfg j d attempt lastError w = Some (Inr (Some r), d', w')"
  shows "prAttempts r = int attempt
           + (int (failedAttempts (docId d) (trace w')) - int (failedAttempts (docId d) (trace w))) + 1
       \<and> prAttempts r \<le> cfgMaxRetries cfg + 1
       \<and> prDocumentId r = docId d"
  using assms
proof (induction P cfg j d attempt lastError w rule: processDocumentLoop.induct)
  case (1 P cfg j d attempt lastError w)
  show ?case
  proof (cases "int attempt \<le> cfgMaxRetries cfg")
    case False
    with "1.prems" show ?thesis
      by (subst (asm) processDocumentLoop.simps) (auto simp: Let_def split: option.splits prod.splits sum.splits)
  next
    case True
    show ?thesis
    proof (cases "attemptDocument P cfg j d attempt w")
      case None
      with True "1.prems" show ?thesis by (subst (asm) processDocumentLoop.simps) simp
    next
      case (Some t)
      obtain o1 d1 w1 where t: "t = (o1, d1, w1)" by (cases t)
      note g = attemptDocument_general [OF Some [unfolded t]]
      show ?thesis
      proof (cases o1)
        case (Inr pr)
        with True Some t "1.prems" have "r = pr" "w' = w1"
          by (subst (asm) processDocumentLoop.simps, simp)+
        with g(1) [of "docId d"] g(3) [OF Inr] True show ?thesis by simp
      next
        case (Inl e)
        let ?w2 = "emit [AttemptFailed (docId d) (Suc attempt)] w1"
        from True Some t Inl "1.prems"
        have l: "processDocumentLoop P cfg j d1 (Suc attempt) (Some e) ?w2 = Some (Inr (Some r), d', w')"
          by (subst (asm) processDocumentLoop.simps) simp
        from "1.IH" [OF True Some, of o1 "(d1, w1)" e d1 w1] t Inl l
        have ih: "prAttempts r = int (Suc attempt)
           + (int (failedAttempts (docId d1) (trace w')) - int (failedAttempts (docId d1) (trace ?w2))) + 1
         \<and> prAttempts r \<le> cfgMaxRetries cfg + 1 \<and> prDocumentId r = docId d1"
          by simp
        have fa: "failedAttempts (docId d) (trace ?w2) = Suc (failedAttempts (docId d) (trace w))"
          using g(1) [of "docId d"] by (simp add: failedAttempts_def)
        from ih fa g(2) show ?thesis by simp
      qed
    qed
  qed
qed

text \<open>
  C1. For every document and every configuration with \<open>maxRetries \<ge> 0\<close>: if the
  extraction of the document fails on every attempt, \<open>processDocument\<close> gives up (it
  returns no result) after exactly \<open>maxRetries + 1\<close> failed attempts, and on a store
  that accepts its writes it has entered the extraction exactly \<open>maxRetries + 1\<close> times,
  returns \<open>null\<close> and leaves the document failed; if the extraction fails on attempts
  \<open>0, ..., k - 1\<close> and succeeds on attempt \<open>k \<le> maxRetries\<close>, the result reports
  \<open>attempts = k + 1\<close>; and whatever the store does, a returned result reports one more
  than the number of failed attempts of the call.
\<close>

theorem processDocument_attempts:
  assumes "0 \<le> cfgMaxRetries cfg"
  shows "((\<forall>a. int a \<le> cfgMaxRetries cfg \<longrightarrow>
             (\<exists>e evs. extractFromDocument P cfg j d a = Some (Inl e, evs))) \<longrightarrow>
          (\<exists>r d' w'. processDocument P cfg j d w = Some (r, d', w')
             \<and> (\<forall>x. r \<noteq> Inr (Some x))
             \<and> failedAttempts (docId d) (trace w') =
                 failedAttempts (docId d) (trace w) + nat (cfgMaxRetries cfg + 1)
             \<and> (writeFaults w = [] \<longrightarrow>
                   r = Inr None \<and> docStatus d' = Failed
                 \<and> extractionAttempts (docId d) (trace w') =
                     extractionAttempts (docId d) (trace w) + nat (cfgMaxRetries cfg + 1))))
       \<and> (\<forall>k v evs. writeFaults w = [] \<and> int k \<le> cfgMaxRetries cfg
             \<and> (\<forall>a<k. \<exists>e evs'. extractFromDocument P cfg j d a = Some (Inl e, evs'))
             \<and> extractFromDocument P cfg j d k = Some (Inr v, evs) \<longrightarrow>
             (\<exists>d' w'. processDocument P cfg j d w =
                 Some (Inr (Some \<lparr>prDocumentId = docId d, prDocumentName = docName d,
                                   prResult = v, prAttempts = int k + 1\<rparr>), d', w')))
       \<and> (\<forall>r d' w'. processDocument P cfg j d w = Some (Inr (Some r), d', w') \<longrightarrow>
             prAttempts r =
               int (failedAttempts (docId d) (trace w')) - int (failedAttempts (docId d) (trace w)) + 1
           \<and> prAttempts r \<le> cfgMaxRetries cfg + 1)"
proof (intro conjI impI allI)
  assume fails: "\<forall>a. int a \<le> cfgMaxRetries cfg \<longrightarrow>
             (\<exists>e evs. extractFromDocument P cfg j d a = Some (Inl e, evs))"
  then have f0: "\<forall>a. 0 \<le> a \<and> int a \<le> cfgMaxRetries cfg \<longrightarrow>
             (\<exists>e evs. extractFromDocument P cfg j d a = Some (Inl e, evs))" by simp
  have le: "None \<noteq> (None :: error option) \<or> int 0 \<le> cfgMaxRetries cfg" using assms by simp
  from processDocumentLoop_all_fail [OF f0 le, of w]
  show "\<exists>r d' w'. processDocument P cfg j d w = Some (r, d', w')
             \<and> (\<forall>x. r \<noteq> Inr (Some x))
             \<and> failedAttempts (docId d) (trace w') =
                 failedAttempts (docId d) (trace w) + nat (cfgMaxRetries cfg + 1)
             \<and> (writeFaults w = [] \<longrightarrow>
                   r = Inr None \<and> docStatus d' = Failed
                 \<and> extractionAttempts (docId d) (trace w') =
                     extractionAttempts (docId d) (trace w) + nat (cfgMaxRetries cfg + 1))"
    unfolding processDocument_def by auto
next
  fix k v evs
  assume h: "writeFaults w = [] \<and> int k \<le> cfgMaxRetries cfg
             \<and> (\<forall>a<k. \<exists>e evs'. extractFromDocument P cfg j d a = Some (Inl e, evs'))
             \<and> extractFromDocument P cfg j d k = Some (Inr v, evs)"
  then have f: "\<forall>a. 0 \<le> a \<and> a < k \<longrightarrow> (\<exists>e evs. extractFromDocument P cfg j d a = Some (Inl e, evs))"
    by simp
  from h have h1: "writeFaults w = []" and h2: "int k \<le> cfgMaxRetries cfg"
    and h3: "extractFromDocument P cfg j d k = Some (Inr v, evs)" by auto
  have h0: "0 \<le> k" by simp
  from processDocumentLoop_succeeds_at [OF h1 h2 h0 f h3, of None]
  show "\<exists>d' w'. processDocument P cfg j d w =
                 Some (Inr (Some \<lparr>prDocumentId = docId d, prDocumentName = docName d,
                                   prResult = v, prAttempts = int k + 1\<rparr>), d', w')"
    unfolding processDocument_def by blast
next
  fix r d' w'
  assume "processDocument P cfg j d w = Some (Inr (Some r), d', w')"
  then have l: "processDocumentLoop P cfg j d 0 None w = Some (Inr (Some r), d', w')"
    by (simp add: processDocument_def)
  from processDocumentLoop_result_attempts [OF l]
  show "prAttempts r =
               int (failedAttempts (docId d) (trace w')) - int (failedAttempts (docId d) (trace w)) + 1"
    and "prAttempts r \<le> cfgMaxRetries cfg + 1"
    by simp_all
qed

lemma failingPorts_extraction:
  "extractFromDocument failingPorts defaultConfig job1 doc1 a =
     Some (Inl (ExtractorError ''extractor unavailable''),
           [ExtractionStarted ''doc1'' a, ExtractorCalled ''doc1'' 0 ''entities''])"
  by (simp add: extractFromDocument_def failingPorts_def defaultConfig_def job1_def doc1_def
      extractionTypeOf_def needsChunking_def getSize_def supportedTypes_def)

lemma failsTwicePorts_extraction:
  "extractFromDocument failsTwicePorts defaultConfig job1 doc1 a =
     (if a < 2
      then Some (Inl (ExtractorError ''timeout''),
                 [ExtractionStarted ''doc1'' a, ExtractorCalled ''doc1'' 0 ''entities''])
      else Some (Inr (JStr ''Alice met Bob.''),
                 [ExtractionStarted ''doc1'' a, ExtractorCalled ''doc1'' 0 ''entities'']))"
  by (simp add: extractFromDocument_def failsTwicePorts_def defaultConfig_def job1_def doc1_def
      extractionTypeOf_def needsChunking_def getSize_def supportedTypes_def firstChunkValue_def)

theorem processDocument_attempts_witness:
  "0 \<le> cfgMaxRetries defaultConfig
   \<and> (\<exists>d' w'. processDocument failingPorts defaultConfig job1 doc1 world1 = Some (Inr None, d', w')
         \<and> docStatus d' = Failed
         \<and> failedAttempts ''doc1'' (trace w') = 4
         \<and> extractionAttempts ''doc1'' (trace w') = 4)
   \<and> (\<exists>d' w'. processDocument failsTwicePorts defaultConfig job1 doc1 world1 =
          Some (Inr (Some \<lparr>prDocumentId = ''doc1'', prDocumentName = ''first.txt'',
                            prResult = JStr ''Alice met Bob.'', prAttempts = 3\<rparr>), d', w'))"
proof -
  have m: "0 \<le> cfgMaxRetries defaultConfig" by (simp add: defaultConfig_def)
  note t = processDocument_attempts [OF m]
  have a: "\<forall>a. int a \<le> cfgMaxRetries defaultConfig \<longrightarrow>
             (\<exists>e evs. extractFromDocument failingPorts defaultConfig job1 doc1 a = Some (Inl e, evs))"
    by (simp add: failingPorts_extraction)
  have nf: "writeFaults world1 = []" "trace world1 = []" "docId doc1 = ''doc1''"
    "docName doc1 = ''first.txt''"
    by (simp_all add: world1_def doc1_def)
  from t [of failingPorts job1 doc1 world1, THEN conjunct1, THEN mp, OF a]
  have p1: "\<exists>d' w'. processDocument failingPorts defaultConfig job1 doc1 world1 = Some (Inr None, d', w')
         \<and> docStatus d' = Failed
         \<and> failedAttempts ''doc1'' (trace w') = 4
         \<and> extractionAttempts ''doc1'' (trace w') = 4"
    using nf by (auto simp: failedAttempts_def extractionAttempts_def defaultConfig_def)
  have b: "writeFaults world1 = [] \<and> int 2 \<le> cfgMaxRetries defaultConfig
         \<and> (\<forall>a<2. \<exists>e evs'. extractFromDocument failsTwicePorts defaultConfig job1 doc1 a = Some (Inl e, evs'))
         \<and> extractFromDocument failsTwicePorts defaultConfig job1 doc1 2 =
             Some (Inr (JStr ''Alice met Bob.''),
                   [ExtractionStarted ''doc1'' 2, ExtractorCalled ''doc1'' 0 ''entities''])"
  proof -
    have "cfgMaxRetries defaultConfig = 3" by (simp add: defaultConfig_def)
    then show ?thesis using nf by (simp add: failsTwicePorts_extraction)
  qed
  from t [of failsTwicePorts job1 doc1 world1, THEN conjunct2, THEN conjunct1,
      THEN spec, THEN spec, THEN spec, THEN mp, OF b]
  have p2: "\<exists>d' w'. processDocument failsTwicePorts defaultConfig job1 doc1 world1 =
          Some (Inr (Some \<lparr>prDocumentId = ''doc1'', prDocumentName = ''first.txt'',
                            prResult = JStr ''Alice met Bob.'', prAttempts = 3\<rparr>), d', w')"
    using nf by simp
  from m p1 p2 show ?thesis by blast
qed

section \<open>Unsupported extraction types\<close>

lemma chunkLoop_grows:
  assumes "chunkLoop c m ov st acc = Some cs"
  shows "length acc \<le> length cs \<and> (st < int (length c) \<longrightarrow> length acc < length cs)"
  using assms
proof (rule chunkLoop.raw_induct [where P = "\<lambda>c m ov st acc cs.
            length acc \<le> length cs \<and> (st < int (length c) \<longrightarrow> length acc < length cs)", rotated])
  fix f c m ov st acc cs
  assume ih: "\<And>c m ov st acc cs. f c m ov st acc = Some cs \<Longrightarrow>
            length acc \<le> length cs \<and> (st < int (length c) \<longrightarrow> length acc < length cs)"
    and step: "(if st < int (length c) then
        f c m ov (windowEnd c m st - ov) (acc @ [substring c st (windowEnd c m st)])
      else Some acc) = Some cs"
  show "length acc \<le> length cs \<and> (st < int (length c) \<longrightarrow> length acc < length cs)"
  proof (cases "st < int (length c)")
    case True
    with step ih [of c m ov "windowEnd c m st - ov" "acc @ [substring c st (windowEnd c m st)]" cs]
    show ?thesis by simp
  next
    case False
    with step show ?thesis by simp
  qed
qed

lemma chunkContent_nonempty:
  assumes "chunkContent c m ov = Some cs" and "0 \<le> m"
  shows "cs \<noteq> []"
proof (cases "needsChunking c m")
  case False
  with assms show ?thesis by (auto simp: chunkContent_def)
next
  case True
  with assms have l: "chunkLoop c m ov 0 [] = Some cs" and "0 < int (length c)"
    by (auto simp: chunkContent_def needsChunking_def getSize_def)
  with chunkLoop_grows [OF l] show ?thesis by auto
qed

text \<open>
  C7 (as amended). For every document and every extraction configuration whose type is a
  non-empty string other than \<open>schema\<close>, \<open>entities\<close>, \<open>summary\<close> and \<open>keywords\<close>, with a
  non-negative \<open>maxChunkSize\<close> and a chunking that returns, extraction is rejected with the
  unsupported-type error before any call to the extractor, but after the content has been
  chunked when it needs chunking.
\<close>

theorem extractFromDocument_rejects_unsupported:
  assumes "configType (jobExtractionConfig j) = Some t" and "t \<noteq> []"
    and "t \<notin> set supportedTypes"
    and "0 \<le> cfgMaxChunkSize cfg"
    and "chunkContent (docContent d) (cfgMaxChunkSize cfg) 200 = Some cs"
  shows "extractFromDocument P cfg j d a =
           Some (Inl (UnsupportedExtractionType t),
                 ExtractionStarted (docId d) a #
                   (if cfgEnableChunking cfg \<and> needsChunking (docContent d) (cfgMaxChunkSize cfg)
                    then [ContentChunked (docId d) (length cs)] else []))"
proof -
  have ty: "extractionTypeOf j = t" using assms(1,2) by (simp add: extractionTypeOf_def)
  from chunkContent_nonempty [OF assms(5,4)] obtain c rest where cs: "cs = c # rest"
    by (cases cs) auto
  show ?thesis
    using assms(3,5) by (simp add: extractFromDocument_def ty cs)
qed

lemma sentiment_rejected_after_chunking:
  "extractFromDocument echoPorts smallChunkConfig sentimentJob longDocument 0
     = Some (Inl (UnsupportedExtractionType ''sentiment''),
             [ExtractionStarted ''doc1'' 0, ContentChunked ''doc1'' 5])"
  by code_simp

lemma untyped_extracted_as_schema:
  "extractFromDocument echoPorts defaultConfig untypedJob doc1 0
     = Some (Inr (JStr ''Alice met Bob.''),
             [ExtractionStarted ''doc1'' 0, ExtractorCalled ''doc1'' 0 ''schema''])"
  by code_simp

theorem extractFromDocument_rejects_unsupported_witness:
  "configType (jobExtractionConfig sentimentJob) = Some ''sentiment''
   \<and> ''sentiment'' \<noteq> []
   \<and> ''sentiment'' \<notin> set supportedTypes
   \<and> 0 \<le> cfgMaxChunkSize defaultConfig
   \<and> chunkContent (docContent doc1) (cfgMaxChunkSize defaultConfig) 200 = Some [''Alice met Bob.'']
   \<and> extractFromDocument echoPorts defaultConfig sentimentJob doc1 0 =
       Some (Inl (UnsupportedExtractionType ''sentiment''), [ExtractionStarted ''doc1'' 0])"
proof -
  have h1: "configType (jobExtractionConfig sentimentJob) = Some ''sentiment''"
    by (simp add: sentimentJob_def)
  have h2: "''sentiment'' \<noteq> []" by simp
  have h3: "''sentiment'' \<notin> set supportedTypes" by (simp add: supportedTypes_def)
  have h4: "0 \<le> cfgMaxChunkSize defaultConfig" by (simp add: defaultConfig_def)
  have h5: "chunkContent (docContent doc1) (cfgMaxChunkSize defaultConfig) 200 = Some [''Alice met Bob.'']"
    by (simp add: chunkContent_def needsChunking_def getSize_def doc1_def defaultConfig_def)
  have n: "\<not> needsChunking (docContent doc1) (cfgMaxChunkSize defaultConfig)"
    by (simp add: needsChunking_def getSize_def doc1_def defaultConfig_def)
  from extractFromDocument_rejects_unsupported [OF h1 h2 h3 h4 h5, of echoPorts 0] n
  have "extractFromDocument echoPorts defaultConfig sentimentJob doc1 0 =
       Some (Inl (UnsupportedExtractionType ''sentiment''), [ExtractionStarted ''doc1'' 0])"
    by (simp add: doc1_def)
  with h1 h2 h3 h4 h5 show ?thesis by blast
qed

text \<open>
  With \<open>maxChunkSize = 10\<close> and the built-in overlap of 200 the chunking of a
  14-character content never returns, whatever the extraction type.
\<close>

lemma windowEnd_doc1:
  "windowEnd ''Alice met Bob.'' 10 0 = 10"
  "windowEnd ''Alice met Bob.'' 10 (- 190) = 0"
  "windowEnd ''Alice met Bob.'' 10 (- 200) = 0"
  by code_simp+

lemma chunkLoop_doc1_stuck: "chunkLoop ''Alice met Bob.'' 10 200 0 chunks = None"
proof -
  have "\<not> (content = ''Alice met Bob.'' \<and> m = 10 \<and> ov = 200 \<and> (st = 0 \<or> st = - 190 \<or> st = - 200))"
    if "chunkLoop content m ov st chunks = Some cs" for content m ov st cs
    using that
  proof (rule chunkLoop.raw_induct [where P = "\<lambda>content m ov st chunks cs.
            \<not> (content = ''Alice met Bob.'' \<and> m = 10 \<and> ov = 200 \<and> (st = 0 \<or> st = - 190 \<or> st = - 200))",
        rotated])
    fix f content m ov st chunks cs
    assume ih: "\<And>content m ov st chunks cs. f content m ov st chunks = Some cs \<Longrightarrow>
            \<not> (content = ''Alice met Bob.'' \<and> m = (10::int) \<and> ov = (200::int)
                \<and> (st = (0::int) \<or> st = - 190 \<or> st = - 200))"
      and step: "(if st < int (length content) then
        f content m ov (windowEnd content m st - ov)
          (chunks @ [substring content st (windowEnd content m st)])
      else Some chunks) = Some cs"
    show "\<not> (content = ''Alice met Bob.'' \<and> m = 10 \<and> ov = 200 \<and> (st = 0 \<or> st = - 190 \<or> st = - 200))"
    proof
      assume a: "content = ''Alice met Bob.'' \<and> m = 10 \<and> ov = 200 \<and> (st = 0 \<or> st = - 190 \<or> st = - 200)"
      then consider "st = 0" | "st = - 190" | "st = - 200" by blast
      then show False
      proof cases
        case 1
        with a step have "f ''Alice met Bob.'' 10 200 (- 190)
            (chunks @ [substring ''Alice met Bob.'' 0 10]) = Some cs"
          by (simp add: windowEnd_doc1)
        from ih [OF this] show False by simp
      next
        case 2
        with a step have "f ''Alice met Bob.'' 10 200 (- 200)
            (chunks @ [substring ''Alice met Bob.'' (- 190) 0]) = Some cs"
          by (simp add: windowEnd_doc1)
        from ih [OF this] show False by simp
      next
        case 3
        with a step have "f ''Alice met Bob.'' 10 200 (- 200)
            (chunks @ [substring ''Alice met Bob.'' (- 200) 0]) = Some cs"
          by (simp add: windowEnd_doc1)
        from ih [OF this] show False by simp
      qed
    qed
  qed
  from this [of "''Alice met Bob.''" 10 200 0] show ?thesis
    by (cases "chunkLoop ''Alice met Bob.'' 10 200 0 chunks") auto
qed

lemma sentiment_never_rejected:
  "extractFromDocument echoPorts tinyChunkConfig sentimentJob doc1 0 = None"
  by (simp add: extractFromDocument_def tinyChunkConfig_def defaultConfig_def doc1_def
      needsChunking_def getSize_def chunkContent_def chunkLoop_doc1_stuck)

text \<open>
  The claim as stated fails. A document of 252 characters with \<open>maxChunkSize = 251\<close> and
  the unsupported type \<open>sentiment\<close> is cut into five chunks before the rejection; with
  \<open>maxChunkSize = 10\<close> the chunking of a 14-character document never returns, so the
  unsupported type is never rejected; and a configuration whose type tag is the empty
  string, which is none of the four types, is not rejected but extracted as \<open>schema\<close>.
\<close>

theorem extractFromDocument_chunks_before_rejecting_counterexample:
  "configType (jobExtractionConfig sentimentJob) = Some ''sentiment''
   \<and> ''sentiment'' \<notin> set supportedTypes
   \<and> extractFromDocument echoPorts smallChunkConfig sentimentJob longDocument 0
       = Some (Inl (UnsupportedExtractionType ''sentiment''),
               [ExtractionStarted ''doc1'' 0, ContentChunked ''doc1'' 5])
   \<and> extractFromDocument echoPorts tinyChunkConfig sentimentJob doc1 0 = None
   \<and> configType (jobExtractionConfig untypedJob) = Some []
   \<and> [] \<notin> set supportedTypes
   \<and> extractFromDocument echoPorts defaultConfig untypedJob doc1 0
       = Some (Inr (JStr ''Alice met Bob.''),
               [ExtractionStarted ''doc1'' 0, ExtractorCalled ''doc1'' 0 ''schema''])"
proof -
  have "configType (jobExtractionConfig sentimentJob) = Some ''sentiment''"
    by (simp add: sentimentJob_def)
  moreover have "''sentiment'' \<notin> set supportedTypes" by (simp add: supportedTypes_def)
  moreover have "configType (jobExtractionConfig untypedJob) = Some []"
    by (simp add: untypedJob_def)
  moreover have "[] \<notin> set supportedTypes" by (simp add: supportedTypes_def)
  ultimately show ?thesis
    using sentiment_rejected_after_chunking untyped_extracted_as_schema sentiment_never_rejected
    by blast
qed

section \<open>What processing the documents leaves untouched\<close>

lemma jobWrites_append [simp]: "jobWrites jid (xs @ ys) = jobWrites jid xs @ jobWrites jid ys"
  by (induction jid xs rule: jobWrites.induct) auto

lemma resultsWritten_append [simp]:
  "resultsWritten jid (xs @ ys) = resultsWritten jid xs @ resultsWritten jid ys"
  by (induction jid xs rule: resultsWritten.induct) auto

lemma isExtractorCalled_no_job_events:
  "list_all isExtractorCalled evs \<Longrightarrow> jobWrites jid evs = [] \<and> resultsWritten jid evs = []"
  by (induction evs) (auto elim: isExtractorCalled.elims)

lemma extractFromDocument_no_job_events:
  assumes "extractFromDocument P cfg j d a = Some (r, evs)"
  shows "jobWrites jid evs = [] \<and> resultsWritten jid evs = []"
proof -
  obtain cs r' evs' where p: "processChunks P (docId d) a (extractionTypeOf j) cs 0 [] = (r', evs')"
    and e: "evs = ExtractionStarted (docId d) a # evs'
          \<or> evs = ExtractionStarted (docId d) a # ContentChunked (docId d) (length cs) # evs'"
    using assms
    by (auto simp del: processChunks.simps simp: extractFromDocument_def Let_def
        split: option.splits prod.splits if_splits)
  from processChunks_events [OF p] have "list_all isExtractorCalled evs'" .
  with e isExtractorCalled_no_job_events [of evs' jid] show ?thesis by auto
qed

lemma jobFrame_refl [simp]: "jobFrame w w"
  by (simp add: jobFrame_def)

lemma jobFrame_trans: "jobFrame w w' \<Longrightarrow> jobFrame w' w'' \<Longrightarrow> jobFrame w w''"
  by (simp add: jobFrame_def)

lemma saveDocument_frame: "saveDocument d w = (r, w') \<Longrightarrow> jobFrame w w'"
  by (auto simp: saveDocument_def jobFrame_def split: option.splits)

lemma attemptDocument_frame:
  assumes "attemptDocument P cfg j d a w = Some (r, d', w')"
  shows "jobFrame w w'"
proof -
  let ?d1 = "document_markProcessing d"
  obtain r1 w1 where s1: "saveDocument ?d1 w = (r1, w1)" by (cases "saveDocument ?d1 w")
  note f1 = saveDocument_frame [OF s1]
  show ?thesis
  proof (cases r1)
    case (Inl e)
    with assms s1 f1 show ?thesis by (auto simp: attemptDocument_def Let_def)
  next
    case (Inr u)
    show ?thesis
    proof (cases "extractFromDocument P cfg j ?d1 a")
      case None
      with assms s1 Inr show ?thesis by (simp add: attemptDocument_def Let_def)
    next
      case (Some p)
      obtain o1 evs where p: "p = (o1, evs)" by (cases p)
      have c: "\<And>jid. jobWrites jid evs = [] \<and> resultsWritten jid evs = []"
        using extractFromDocument_no_job_events Some p by blast
      have fe: "jobFrame w (emit evs w1)"
        using f1 c by (simp add: jobFrame_def)
      show ?thesis
      proof (cases o1)
        case (Inl e)
        with assms s1 Inr Some p fe show ?thesis
          by (auto simp: attemptDocument_def Let_def)
      next
        case v: (Inr v)
        let ?d2 = "document_markCompleted ?d1 v"
        obtain r2 w2 where s2: "saveDocument ?d2 (emit evs w1) = (r2, w2)"
          by (cases "saveDocument ?d2 (emit evs w1)")
        from jobFrame_trans [OF fe saveDocument_frame [OF s2]] have "jobFrame w w2" .
        with assms s1 Inr Some p v s2 show ?thesis
          by (cases r2) (auto simp: attemptDocument_def Let_def)
      qed
    qed
  qed
qed

lemma processDocumentLoop_frame:
  assumes "processDocumentLoop P cfg j d attempt lastError w = Some (r, d', w')"
  shows "jobFrame w w'"
  using assms
proof (induction P cfg j d attempt lastError w rule: processDocumentLoop.induct)
  case (1 P cfg j d attempt lastError w)
  show ?case
  proof (cases "int attempt \<le> cfgMaxRetries cfg")
    case False
    with "1.prems" show ?thesis
      by (subst (asm) processDocumentLoop.simps)
        (auto simp: Let_def split: option.splits prod.splits sum.splits dest: saveDocument_frame)
  next
    case True
    show ?thesis
    proof (cases "attemptDocument P cfg j d attempt w")
      case None
      with True "1.prems" show ?thesis by (subst (asm) processDocumentLoop.simps) simp
    next
      case (Some t)
      obtain o1 d1 w1 where t: "t = (o1, d1, w1)" by (cases t)
      note g = attemptDocument_frame [OF Some [unfolded t]]
      show ?thesis
      proof (cases o1)
        case (Inr pr)
        with True Some t "1.prems" have "w' = w1"
          by (subst (asm) processDocumentLoop.simps) simp
        with g show ?thesis by simp
      next
        case (Inl e)
        let ?w2 = "emit [AttemptFailed (docId d) (Suc attempt)] w1"
        from True Some t Inl "1.prems"
        have l: "processDocumentLoop P cfg j d1 (Suc attempt) (Some e) ?w2 = Some (r, d', w')"
          by (subst (asm) processDocumentLoop.simps) simp
        from "1.IH" [OF True Some, of o1 "(d1, w1)" e d1 w1] t Inl l
        have ih: "jobFrame ?w2 w'" by simp
        have "jobFrame w ?w2" using g by (simp add: jobFrame_def)
        from jobFrame_trans [OF this ih] show ?thesis .
      qed
    qed
  qed
qed

lemma processDocument_frame:
  "processDocument P cfg j d w = Some (r, d', w') \<Longrightarrow> jobFrame w w'"
  unfolding processDocument_def by (rule processDocumentLoop_frame)

lemma processWorkerGroup_frame:
  "processWorkerGroup P cfg j ds w = Some (rs, w') \<Longrightarrow> jobFrame w w'"
proof (induction ds arbitrary: w rs w')
  case Nil
  then show ?case by simp
next
  case (Cons d ds)
  then show ?case
    by (auto split: option.splits prod.splits dest!: processDocument_frame intro: jobFrame_trans)
qed

lemma waveLoop_frame:
  assumes "waveLoop run step xs i acc = Some y"
    and "\<And>g w rs w'. run g w = Some (rs, w') \<Longrightarrow> jobFrame w w'"
  shows "jobFrame (snd acc) (snd y)"
  using assms(1)
proof (rule waveLoop.raw_induct [where P = "\<lambda>r step xs i acc y. r = run \<longrightarrow> jobFrame (snd acc) (snd y)",
      rotated, THEN mp])
  fix f r step xs i acc y
  assume ih: "\<And>r step xs i acc y. f r step xs i acc = Some y \<Longrightarrow> r = run \<longrightarrow> jobFrame (snd acc) (snd y)"
    and step: "(if i < int (length xs) then
        Option.bind (r (slice xs i (i + step)) (snd acc))
          (\<lambda>(rs, w'). f r step xs (i + step) (fst acc @ rs, w'))
      else Some acc) = Some y"
  show "r = run \<longrightarrow> jobFrame (snd acc) (snd y)"
  proof
    assume r: "r = run"
    show "jobFrame (snd acc) (snd y)"
    proof (cases "i < int (length xs)")
      case False
      with step show ?thesis by auto
    next
      case True
      with step r obtain rs w1 where
        g: "run (slice xs i (i + step)) (snd acc) = Some (rs, w1)"
        and l: "f run step xs (i + step) (fst acc @ rs, w1) = Some y"
        by (auto simp: bind_eq_Some_conv)
      from ih [OF l] have "jobFrame w1 (snd y)" by simp
      from jobFrame_trans [OF assms(2) [OF g] this] show ?thesis .
    qed
  qed
qed simp

lemma processBatch_frame:
  "processBatch P cfg j batch w = Some (rs, w') \<Longrightarrow> jobFrame w w'"
  unfolding processBatch_def
  using waveLoop_frame [where run = "processWorkerGroup P cfg j", OF _ processWorkerGroup_frame]
  by fastforce

lemma processBatchGroup_frame:
  "processBatchGroup P cfg j bs w = Some (rs, w') \<Longrightarrow> jobFrame w w'"
proof (induction bs arbitrary: w rs w')
  case Nil
  then show ?case by simp
next
  case (Cons b bs)
  then show ?case
    by (auto split: option.splits prod.splits dest!: processBatch_frame intro: jobFrame_trans)
qed

lemma processDocuments_frame:
  "processDocuments P cfg j docs w = Some (rs, w') \<Longrightarrow> jobFrame w w'"
  unfolding processDocuments_def
  using waveLoop_frame [where run = "processBatchGroup P cfg j", OF _ processBatchGroup_frame]
  by (fastforce split: option.splits)


section \<open>The job in the store during a run\<close>

lemma findJobById_ident: "findJobById jid w = Some j \<Longrightarrow> jobIdent j = jid"
  by (auto simp: findJobById_def find_Some_iff)

lemma saveJob_cases:
  assumes "saveJob j w = (r, w')"
  obtains m where "nextFault w = Some m" "r = Inl (StoreError m)" "jobsColl w' = jobsColl w"
      "trace w' = trace w" "documentsColl w' = documentsColl w" "writeFaults w' = tl (writeFaults w)"
  | "nextFault w = None" "r = Inr ()" "jobsColl w' = upsert jobIdent j (jobsColl w)"
      "trace w' = trace w @ [JobSaved (jobIdent j) (jobStatus j)]"
      "documentsColl w' = documentsColl w" "writeFaults w' = tl (writeFaults w)"
  using assms by (auto simp: saveJob_def split: option.splits)

lemma saveJob_find:
  assumes "saveJob j w = (r, w')" and "findJobById (jobIdent j) w = Some j0"
  shows "findJobById (jobIdent j) w' = Some (case r of Inl e \<Rightarrow> j0 | Inr u \<Rightarrow> j)"
  using assms(1)
proof (cases rule: saveJob_cases)
  case (1 m)
  with assms(2) show ?thesis by (simp add: findJobById_def)
next
  case 2
  then show ?thesis by (simp add: findJobById_def find_upsert)
qed

lemma nextFault_Nil [simp]: "writeFaults w = [] \<Longrightarrow> nextFault w = None"
  by (simp add: nextFault_def)

text \<open>What the try block does to the job, case by case.\<close>

lemma executeRun_job:
  assumes "executeRun P cfg jid w = Some (r, w1)" and "findJobById jid w = Some j0"
  shows "\<exists>j1 ws. findJobById jid w1 = Some j1
           \<and> jobWrites jid (trace w1) = jobWrites jid (trace w) @ ws
           \<and> (case r of Inl e \<Rightarrow> ws = [] \<or> ws = [Processing]
                       | Inr s \<Rightarrow> ws = [Processing, Completed] \<and> jobStatus j1 = Completed
                                  \<and> jobResult j1 = Some s)"
proof -
  let ?j = "job_markProcessing j0"
  have id0: "jobIdent j0 = jid" using assms(2) by (rule findJobById_ident)
  then have id: "jobIdent ?j = jid" by (simp add: job_markProcessing_def)
  obtain r1 w01 where s1: "saveJob ?j w = (r1, w01)" by (cases "saveJob ?j w")
  from saveJob_find [OF s1] assms(2) id
  have f1: "findJobById jid w01 = Some (case r1 of Inl e \<Rightarrow> j0 | Inr u \<Rightarrow> ?j)" by simp
  from s1 show ?thesis
  proof (cases rule: saveJob_cases)
    case (1 m)
    with assms s1 f1 show ?thesis
      by (auto simp: executeRun_def Let_def)
  next
    case 2
    note ok1 = this
    let ?docs = "getDocumentsForJob ?j w01"
    have w1a: "jobWrites jid (trace w01) = jobWrites jid (trace w) @ [Processing]"
      using ok1 id by (simp add: job_markProcessing_def)
    show ?thesis
    proof (cases "length ?docs = 0")
      case True
      with assms s1 ok1 f1 w1a show ?thesis
        by (auto simp: executeRun_def Let_def)
    next
      case False
      show ?thesis
      proof (cases "processDocuments P cfg ?j ?docs w01")
        case None
        with assms s1 ok1 False show ?thesis by (simp add: executeRun_def Let_def)
      next
        case (Some p)
        obtain rs w2 where p: "p = (rs, w2)" by (cases p)
        from processDocuments_frame [OF Some [unfolded p]]
        have fr: "jobsColl w2 = jobsColl w01" "jobWrites jid (trace w2) = jobWrites jid (trace w01)"
          by (auto simp: jobFrame_def)
        let ?w2 = "emit [ResultsWritten jid rs] w2"
        have f2: "findJobById jid ?w2 = Some ?j" "jobWrites jid (trace ?w2) = jobWrites jid (trace w) @ [Processing]"
          using f1 ok1 fr w1a by (simp_all add: findJobById_def)
        show ?thesis
        proof (cases "writeResultsPort P jid rs")
          case (Inl m)
          with assms s1 ok1 False Some p f2 show ?thesis
            by (auto simp: executeRun_def Let_def)
        next
          case (Inr outputMeta)
          let ?s = "\<lparr>sumJobId = jid, totalDocuments = int (length ?docs),
                      processedDocuments = int (length rs),
                      failedDocuments = int (length ?docs) - int (length rs),
                      sumOutputMetadata = outputMeta\<rparr>"
          let ?jc = "job_markCompleted ?j ?s"
          have idc: "jobIdent ?jc = jid" using id by (simp add: job_markCompleted_def)
          obtain r3 w3 where s3: "saveJob ?jc ?w2 = (r3, w3)" by (cases "saveJob ?jc ?w2")
          from saveJob_find [OF s3] f2(1) idc
          have f3: "findJobById jid w3 = Some (case r3 of Inl e \<Rightarrow> ?j | Inr u \<Rightarrow> ?jc)" by simp
          have res: "executeRun P cfg jid w =
                  (case r3 of Inl e \<Rightarrow> Some (Inl e, w3) | Inr u \<Rightarrow> Some (Inr ?s, w3))"
            using assms(2) s1 ok1 False Some p Inr s3
            by (simp add: executeRun_def Let_def split: sum.splits)
          from s3 show ?thesis
          proof (cases rule: saveJob_cases)
            case (1 m)
            with res assms(1) f3 f2(2) show ?thesis by auto
          next
            case 2
            with res assms(1) f3 f2(2) idc show ?thesis
              by (auto simp: job_markCompleted_def)
          qed
        qed
      qed
    qed
  qed
qed

section \<open>Failure of a run\<close>

lemma handleFailure_marks_job_failed:
  assumes "findJobById jid w1 = Some j1" and "nextFault w1 = None"
  shows "\<exists>w' j'. handleFailure jid e w1 = (Inl e, w')
           \<and> findJobById jid w' = Some j'
           \<and> jobStatus j' = Failed
           \<and> jobError j' = Some (message e)"
proof -
  let ?jf = "job_markFailed j1 (message e)"
  have idf: "jobIdent ?jf = jid"
    using findJobById_ident [OF assms(1)] by (simp add: job_markFailed_def)
  obtain r w' where s: "saveJob ?jf w1 = (r, w')" by (cases "saveJob ?jf w1")
  from s assms(2) have r: "r = Inr ()" by (cases rule: saveJob_cases) auto
  from saveJob_find [OF s] assms(1) idf r have "findJobById jid w' = Some ?jf" by simp
  moreover have "handleFailure jid e w1 = (Inl e, w')"
    using assms(1) s r by (simp add: handleFailure_def)
  ultimately show ?thesis by (auto simp: job_markFailed_def)
qed





section \<open>Missing jobs and documents\<close>

text \<open>
  C4 (as amended). For every job id, \<open>execute\<close> fails with the job-not-found error when
  the job does not exist; and, on a store that accepts its writes, it fails with the
  no-documents error when the document set resolved for the job is empty (so also when none
  of the referenced documents exists), leaving the job failed. A referenced document that
  does not exist is otherwise skipped: no error is raised for it.
\<close>

theorem execute_not_found_and_empty:
  "(findJobById jid w = None \<longrightarrow> execute P cfg jid w = Some (Inl (JobNotFound jid), w))
   \<and> (\<forall>j0. findJobById jid w = Some j0 \<and> writeFaults w = [] \<and> getDocumentsForJob j0 w = [] \<longrightarrow>
        (\<exists>w' j'. execute P cfg jid w = Some (Inl (NoDocumentsFound jid), w')
            \<and> findJobById jid w' = Some j' \<and> jobStatus j' = Failed
            \<and> jobError j' = Some (message (NoDocumentsFound jid))))"
proof (intro conjI impI allI)
  assume "findJobById jid w = None"
  then show "execute P cfg jid w = Some (Inl (JobNotFound jid), w)"
    by (simp add: execute_def executeRun_def handleFailure_def)
next
  fix j0
  assume h: "findJobById jid w = Some j0 \<and> writeFaults w = [] \<and> getDocumentsForJob j0 w = []"
  let ?j = "job_markProcessing j0"
  obtain r1 w1 where s1: "saveJob ?j w = (r1, w1)" by (cases "saveJob ?j w")
  from s1 h have ok: "r1 = Inr ()" "documentsColl w1 = documentsColl w" "writeFaults w1 = []"
    by (cases rule: saveJob_cases; simp)+
  have docs: "getDocumentsForJob ?j w1 = []"
    using h ok
    by (auto simp: getDocumentsForJob_def findByIds_def job_markProcessing_def split: if_splits)
  have run: "executeRun P cfg jid w = Some (Inl (NoDocumentsFound jid), w1)"
    using h s1 ok docs by (simp add: executeRun_def Let_def)
  have nf: "nextFault w1 = None" using ok by simp
  from h have f: "findJobById jid w = Some j0" by simp
  from executeRun_job [OF run f] obtain j1 where f1: "findJobById jid w1 = Some j1" by blast
  from handleFailure_marks_job_failed [OF f1 nf, of "NoDocumentsFound jid"]
  obtain w' j' where hf: "handleFailure jid (NoDocumentsFound jid) w1 = (Inl (NoDocumentsFound jid), w')"
    and j': "findJobById jid w' = Some j'" "jobStatus j' = Failed"
      "jobError j' = Some (message (NoDocumentsFound jid))" by blast
  from hf run have "execute P cfg jid w = Some (Inl (NoDocumentsFound jid), w')"
    by (simp add: execute_def)
  with j' show "\<exists>w' j'. execute P cfg jid w = Some (Inl (NoDocumentsFound jid), w')
            \<and> findJobById jid w' = Some j' \<and> jobStatus j' = Failed
            \<and> jobError j' = Some (message (NoDocumentsFound jid))" by blast
qed

theorem execute_not_found_and_empty_witness:
  "findJobById ''job7'' world1 = None
   \<and> execute echoPorts defaultConfig ''job7'' world1 = Some (Inl (JobNotFound ''job7''), world1)
   \<and> findJobById ''job1'' worldNoDocuments = Some job1
   \<and> writeFaults worldNoDocuments = []
   \<and> getDocumentsForJob job1 worldNoDocuments = []
   \<and> (\<exists>w' j'. execute echoPorts defaultConfig ''job1'' worldNoDocuments
                   = Some (Inl (NoDocumentsFound ''job1''), w')
            \<and> findJobById ''job1'' w' = Some j' \<and> jobStatus j' = Failed
            \<and> jobError j' = Some ''No documents found for job job1'')"
proof -
  have a: "findJobById ''job7'' world1 = None"
    by (simp add: findJobById_def world1_def job1_def)
  have b: "findJobById ''job1'' worldNoDocuments = Some job1 \<and> writeFaults worldNoDocuments = []
            \<and> getDocumentsForJob job1 worldNoDocuments = []"
    by (simp add: findJobById_def worldNoDocuments_def job1_def getDocumentsForJob_def findByIds_def)
  note t1 = execute_not_found_and_empty [of "''job7''" world1 echoPorts defaultConfig, THEN conjunct1,
      THEN mp, OF a]
  note t2 = execute_not_found_and_empty [of "''job1''" worldNoDocuments echoPorts defaultConfig,
      THEN conjunct2, THEN spec, THEN mp, OF b]
  from a b t1 t2 show ?thesis by simp
qed

text \<open>
  The claim as stated fails for a job that references \<open>doc1\<close> and \<open>doc2\<close> when only
  \<open>doc1\<close> is stored: \<open>findByIds\<close> filters the collection, the run processes the one
  document it finds and returns a summary with \<open>totalDocuments = 1\<close>.
\<close>

theorem execute_skips_missing_document_counterexample:
  "findJobById ''job1'' worldMissingDoc2 = Some job1
   \<and> documentIds job1 = [''doc1'', ''doc2'']
   \<and> findDocumentById ''doc2'' worldMissingDoc2 = None
   \<and> map_option fst (execute echoPorts defaultConfig ''job1'' worldMissingDoc2)
       = Some (Inr \<lparr>sumJobId = ''job1'', totalDocuments = 1, processedDocuments = 1,
                     failedDocuments = 0,
                     sumOutputMetadata = \<lparr>metaJobId = ''job1'', outputFiles = [], totalRecords = 1,
                       totalFiles = 0, metaFormat = ''jsonl'', metaCompression = True\<rparr>\<rparr>)"
  by code_simp

section \<open>The status of a job during a run\<close>





section \<open>Batches and groups process the documents in order\<close>









section \<open>Documents in the store during a run\<close>

lemma docFrame_refl [simp]: "docFrame ids w w"
  by (simp add: docFrame_def)










section \<open>A document that fails on every attempt\<close>





section \<open>A failed document does not fail the job\<close>

lemma extractionTypeOf_markProcessing [simp]:
  "extractionTypeOf (job_markProcessing j) = extractionTypeOf j"
  by (simp add: extractionTypeOf_def job_markProcessing_def)





end
